theory Spec2Isabelle
  imports Main
begin

section \<open>Strings\<close>

text \<open>
  A Python \<open>str\<close> is modelled by its UTF-8 encoding: a \<open>string\<close> of bytes, in which an
  ASCII character is one byte and any other character a lead byte followed by one to
  three continuation bytes (\<open>0x80\<close> to \<open>0xBF\<close>). What Python counts in characters is counted
  here in the bytes that start a character. (A \<open>str\<close> holding a lone surrogate has no
  UTF-8 encoding and no counterpart here.)
\<close>

definition continuation :: "char \<Rightarrow> bool" where
  "continuation c = (128 \<le> (of_char c :: nat) \<and> (of_char c :: nat) < 192)"

text \<open>\<open>len(s)\<close> and \<open>s[:n]\<close> for a bound that is not negative.\<close>

definition str_len :: "string \<Rightarrow> nat" where
  "str_len s = length (filter (\<lambda>c. \<not> continuation c) s)"

fun str_take :: "nat \<Rightarrow> string \<Rightarrow> string" where
  "str_take n [] = []"
| "str_take n (c # cs) =
     (if continuation c then c # str_take n cs
      else (case n of 0 \<Rightarrow> [] | Suc k \<Rightarrow> c # str_take k cs))"

definition startswith :: "string \<Rightarrow> string \<Rightarrow> bool" where
  "startswith s pre = (take (length pre) s = pre)"

text \<open>\<open>sep.join(parts)\<close>.\<close>

fun join :: "string \<Rightarrow> string list \<Rightarrow> string" where
  "join sep [] = []"
| "join sep [x] = x"
| "join sep (x # y # ys) = x @ sep @ join sep (y # ys)"

text \<open>
  The characters \<open>str.isspace\<close> accepts, by the length of their encoding: the ASCII ones;
  U+0085 and U+00A0; U+1680, U+2000 to U+200A, U+2028, U+2029, U+202F, U+205F and U+3000.
\<close>

definition space1 :: "char \<Rightarrow> bool" where
  "space1 a = (a \<in> set [CHR 0x09, CHR 0x0A, CHR 0x0B, CHR 0x0C, CHR 0x0D,
                         CHR 0x1C, CHR 0x1D, CHR 0x1E, CHR 0x1F, CHR 0x20])"

definition space2 :: "char \<Rightarrow> char \<Rightarrow> bool" where
  "space2 a b = (a = CHR 0xC2 \<and> (b = CHR 0x85 \<or> b = CHR 0xA0))"

definition space3 :: "char \<Rightarrow> char \<Rightarrow> char \<Rightarrow> bool" where
  "space3 a b c =
     ((a = CHR 0xE1 \<and> b = CHR 0x9A \<and> c = CHR 0x80)
      \<or> (a = CHR 0xE2 \<and> b = CHR 0x80
          \<and> ((128 \<le> (of_char c :: nat) \<and> (of_char c :: nat) \<le> 138)
               \<or> c = CHR 0xA8 \<or> c = CHR 0xA9 \<or> c = CHR 0xAF))
      \<or> (a = CHR 0xE2 \<and> b = CHR 0x81 \<and> c = CHR 0x9F)
      \<or> (a = CHR 0xE3 \<and> b = CHR 0x80 \<and> c = CHR 0x80))"

text \<open>
  \<open>str.strip()\<close> removes them at both ends. At the end they are found reading the bytes
  backwards, which is what \<open>rstrip_rev\<close> does on the reversed string.
\<close>

fun lstrip :: "string \<Rightarrow> string" where
  "lstrip (a # b # c # s) =
     (if space1 a then lstrip (b # c # s)
      else if space2 a b then lstrip (c # s)
      else if space3 a b c then lstrip s
      else a # b # c # s)"
| "lstrip [a, b] = (if space1 a then lstrip [b] else if space2 a b then [] else [a, b])"
| "lstrip [a] = (if space1 a then [] else [a])"
| "lstrip [] = []"

fun rstrip_rev :: "string \<Rightarrow> string" where
  "rstrip_rev (c # b # a # s) =
     (if space1 c then rstrip_rev (b # a # s)
      else if space2 b c then rstrip_rev (a # s)
      else if space3 a b c then rstrip_rev s
      else c # b # a # s)"
| "rstrip_rev [b, a] = (if space1 b then rstrip_rev [a] else if space2 a b then [] else [b, a])"
| "rstrip_rev [a] = (if space1 a then [] else [a])"
| "rstrip_rev [] = []"

definition strip :: "string \<Rightarrow> string" where
  "strip s = rev (rstrip_rev (rev (lstrip s)))"

text \<open>\<open>xs[:m]\<close> for an \<open>int\<close> \<open>m\<close>: a negative bound counts from the end.\<close>

definition slice_to :: "int \<Rightarrow> 'a list \<Rightarrow> 'a list" where
  "slice_to m xs = (if 0 \<le> m then take (nat m) xs else take (length xs - nat (- m)) xs)"

section \<open>The parsed document (BeautifulSoup tree)\<close>

text \<open>
  The tree the HTML parser hands back: a text node, or an element with its tag name, the
  values of its multi-valued \<open>class\<close> attribute, its other attributes and its children.
  The \<open>BeautifulSoup\<close> object itself is the root element of the tree. Comments and
  the other special strings of a page are left out of the tree.
\<close>

datatype node =
    Text string
  | Element string "string list" "(string \<times> string) list" "node list"

text \<open>\<open>tag.descendants\<close>: every node below the tag, in document order.\<close>

fun descendants :: "node \<Rightarrow> node list" where
  "descendants (Text s) = []"
| "descendants (Element t cl at cs) = concat (map (\<lambda>c. c # descendants c) cs)"

text \<open>The filters \<open>find_all(name)\<close>, \<open>find_all(name, class_=c)\<close> and \<open>soup([names])\<close> use.\<close>

fun named :: "string list \<Rightarrow> node \<Rightarrow> bool" where
  "named ts (Text s) = False"
| "named ts (Element t cl at cs) = (t \<in> set ts)"

fun named_class :: "string \<Rightarrow> string \<Rightarrow> node \<Rightarrow> bool" where
  "named_class t c (Text s) = False"
| "named_class t c (Element t' cl at cs) = (t' = t \<and> c \<in> set cl)"

definition find_all :: "(node \<Rightarrow> bool) \<Rightarrow> node \<Rightarrow> node list" where
  "find_all p n = filter p (descendants n)"

text \<open>\<open>tag.find(...)\<close>: the first match in document order, or \<open>None\<close>.\<close>

definition find_first :: "(node \<Rightarrow> bool) \<Rightarrow> node \<Rightarrow> node option" where
  "find_first p n = List.find p (descendants n)"

text \<open>\<open>tag.get(key, default)\<close>.\<close>

fun get_attr :: "node \<Rightarrow> string \<Rightarrow> string \<Rightarrow> string" where
  "get_attr (Text s) k d = d"
| "get_attr (Element t cl at cs) k d = (case map_of at k of None \<Rightarrow> d | Some v \<Rightarrow> v)"

text \<open>The strings below a node, in document order.\<close>

fun all_strings :: "node \<Rightarrow> string list" where
  "all_strings (Text s) = [s]"
| "all_strings (Element t cl at cs) = concat (map all_strings cs)"

text \<open>
  \<open>tag.get_text(separator, strip=True)\<close>: every string is stripped, the empty ones are
  skipped, the rest are joined with the separator.
\<close>

definition get_text :: "string \<Rightarrow> node \<Rightarrow> string" where
  "get_text sep n = join sep (filter (\<lambda>s. s \<noteq> []) (map strip (all_strings n)))"

section \<open>URL handling (urllib.parse)\<close>

datatype error = ValueError | RequestException

definition hexval :: "char \<Rightarrow> nat option" where
  "hexval c =
     (let n = (of_char c :: nat) in
      if 48 \<le> n \<and> n \<le> 57 then Some (n - 48)
      else if 65 \<le> n \<and> n \<le> 70 then Some (n - 55)
      else if 97 \<le> n \<and> n \<le> 102 then Some (n - 87)
      else None)"

text \<open>
  \<open>unquote_to_bytes\<close>: \<open>%XX\<close> with two hexadecimal digits becomes the byte of that value,
  any other \<open>%\<close> stays as it is.
\<close>

fun unquote_to_bytes :: "string \<Rightarrow> string" where
  "unquote_to_bytes (c # h # l # rest) =
     (if c = CHR ''%'' then
        (case (hexval h, hexval l) of
           (Some a, Some b) \<Rightarrow> char_of (16 * a + b) # unquote_to_bytes rest
         | _ \<Rightarrow> c # unquote_to_bytes (h # l # rest))
      else c # unquote_to_bytes (h # l # rest))"
| "unquote_to_bytes s = s"

text \<open>
  \<open>bytes.decode('utf-8', 'replace')\<close>, as the encoding of its result: a well-formed
  sequence is kept; a byte that cannot start a sequence, and the well-formed start of a
  sequence that its next byte or the end of the input breaks off, are each replaced by
  U+FFFD. After a lead byte \<open>0xE0\<close>, \<open>0xED\<close>, \<open>0xF0\<close> or \<open>0xF4\<close> the second byte is
  restricted further (no overlong form, no surrogate, nothing beyond U+10FFFF).
\<close>

definition replacement :: string where
  "replacement = [CHR 0xEF, CHR 0xBF, CHR 0xBD]"

definition second_ok :: "char \<Rightarrow> char \<Rightarrow> bool" where
  "second_ok a b =
     (continuation b
      \<and> (if a = CHR 0xE0 then 160 \<le> (of_char b :: nat)
           else if a = CHR 0xED then (of_char b :: nat) < 160
           else if a = CHR 0xF0 then 144 \<le> (of_char b :: nat)
           else if a = CHR 0xF4 then (of_char b :: nat) < 144
           else True))"

fun utf8_replace :: "string \<Rightarrow> string" where
  "utf8_replace [] = []"
| "utf8_replace (a # s) =
     (if (of_char a :: nat) < 128 then a # utf8_replace s
      else if (of_char a :: nat) < 194 \<or> 245 \<le> (of_char a :: nat)
        then replacement @ utf8_replace s
      else
        (case s of
           [] \<Rightarrow> replacement
         | b # s1 \<Rightarrow>
             if \<not> second_ok a b then replacement @ utf8_replace s
             else if (of_char a :: nat) < 224 then a # b # utf8_replace s1
             else
               (case s1 of
                  [] \<Rightarrow> replacement
                | c # s2 \<Rightarrow>
                    if \<not> continuation c then replacement @ utf8_replace s1
                    else if (of_char a :: nat) < 240 then a # b # c # utf8_replace s2
                    else
                      (case s2 of
                         [] \<Rightarrow> replacement
                       | d # s3 \<Rightarrow>
                           if \<not> continuation d then replacement @ utf8_replace s2
                           else a # b # c # d # utf8_replace s3))))"

text \<open>
  \<open>unquote\<close>: every run of ASCII characters is unquoted to bytes and these are decoded;
  the characters beyond ASCII stay as they are. The first argument of \<open>unquote_runs\<close> is
  the run read so far.
\<close>

fun unquote_runs :: "string \<Rightarrow> string \<Rightarrow> string" where
  "unquote_runs run [] = utf8_replace (unquote_to_bytes run)"
| "unquote_runs run (c # cs) =
     (if (of_char c :: nat) < 128 then unquote_runs (run @ [c]) cs
      else utf8_replace (unquote_to_bytes run) @ c # unquote_runs [] cs)"

definition unquote :: "string \<Rightarrow> string" where
  "unquote s = unquote_runs [] s"

definition unquote_plus :: "string \<Rightarrow> string" where
  "unquote_plus s = unquote (map (\<lambda>c. if c = CHR ''+'' then CHR '' '' else c) s)"

text \<open>\<open>s.split(sep)\<close> for a one-character separator: always at least one piece.\<close>

fun split :: "char \<Rightarrow> string \<Rightarrow> string list" where
  "split sep [] = [[]]"
| "split sep (c # cs) =
     (if c = sep then [] # split sep cs
      else (case split sep cs of p # ps \<Rightarrow> (c # p) # ps | [] \<Rightarrow> [[c]]))"

text \<open>
  \<open>parse_qsl(qs)\<close> with its defaults: fields are separated by \<open>&\<close>; an empty field, a field
  without \<open>=\<close> and a field with a blank value are skipped; name and value are unquoted.
\<close>

definition parse_field :: "string \<Rightarrow> (string \<times> string) list" where
  "parse_field name_value =
     (if name_value = [] then []
      else
        let name = takeWhile (\<lambda>c. c \<noteq> CHR ''='') name_value;
            val = drop 1 (dropWhile (\<lambda>c. c \<noteq> CHR ''='') name_value)
        in if val \<noteq> [] then [(unquote_plus name, unquote_plus val)] else [])"

definition parse_qsl :: "string \<Rightarrow> (string \<times> string) list" where
  "parse_qsl qs = (if qs = [] then [] else concat (map parse_field (split CHR ''&'' qs)))"

text \<open>\<open>parse_qs(qs).get(key, [''])[0]\<close>: the first value recorded for the key, or \<open>''\<close>.\<close>

definition qs_first :: "string \<Rightarrow> string \<Rightarrow> string" where
  "qs_first key qs = (case map_of (parse_qsl qs) key of None \<Rightarrow> [] | Some v \<Rightarrow> v)"

text \<open>
  \<open>urlparse(url).query\<close>. Leading control characters and spaces are stripped, tab, CR and
  LF are removed, a scheme is split off, then the network location, then the fragment;
  the query is what follows the first \<open>?\<close> of the rest. A network location with an
  unmatched bracket raises \<open>ValueError\<close>. (The library validates a bracketed host and a
  non-ASCII host further; at the only call site the host is \<open>duckduckgo.com\<close>.)
\<close>

definition scheme_char :: "char \<Rightarrow> bool" where
  "scheme_char c =
     (let n = (of_char c :: nat) in
      (97 \<le> n \<and> n \<le> 122) \<or> (65 \<le> n \<and> n \<le> 90) \<or> (48 \<le> n \<and> n \<le> 57)
      \<or> c = CHR ''+'' \<or> c = CHR ''-'' \<or> c = CHR ''.'')"

definition ascii_alpha :: "char \<Rightarrow> bool" where
  "ascii_alpha c = (let n = (of_char c :: nat) in (97 \<le> n \<and> n \<le> 122) \<or> (65 \<le> n \<and> n \<le> 90))"

definition drop_scheme :: "string \<Rightarrow> string" where
  "drop_scheme url =
     (let pre = takeWhile (\<lambda>c. c \<noteq> CHR '':'') url in
      if CHR '':'' \<in> set url \<and> pre \<noteq> [] \<and> ascii_alpha (hd url) \<and> list_all scheme_char pre
      then drop (length pre + 1) url else url)"

definition remove_unsafe :: "string \<Rightarrow> string" where
  "remove_unsafe s = filter (\<lambda>c. c \<notin> set [CHR 0x09, CHR 0x0D, CHR 0x0A]) s"

definition urlparse_query :: "string \<Rightarrow> error + string" where
  "urlparse_query url0 =
     (let url1 = dropWhile (\<lambda>c. (of_char c :: nat) \<le> 32) url0;
          url2 = remove_unsafe url1;
          url3 = drop_scheme url2;
          delim = (\<lambda>c. c \<in> set ''/?#'');
          netloc = (if take 2 url3 = ''//'' then takeWhile (\<lambda>c. \<not> delim c) (drop 2 url3) else []);
          url4 = (if take 2 url3 = ''//'' then dropWhile (\<lambda>c. \<not> delim c) (drop 2 url3) else url3)
      in if (CHR ''['' \<in> set netloc) \<noteq> (CHR '']'' \<in> set netloc) then Inl ValueError
         else
           let url5 = takeWhile (\<lambda>c. c \<noteq> CHR ''#'') url4
           in Inr (drop 1 (dropWhile (\<lambda>c. c \<noteq> CHR ''?'') url5)))"

text \<open>
  \<open>quote_plus\<close>, used for the search request: a space becomes \<open>+\<close>, and every other byte of
  the encoded string but letters, digits and \<open>_.-~\<close> becomes \<open>%XX\<close>.
\<close>

definition hexdigit :: "nat \<Rightarrow> char" where
  "hexdigit n = (if n < 10 then char_of (48 + n) else char_of (55 + n))"

definition always_safe :: "char \<Rightarrow> bool" where
  "always_safe c =
     (let n = (of_char c :: nat) in
      (97 \<le> n \<and> n \<le> 122) \<or> (65 \<le> n \<and> n \<le> 90) \<or> (48 \<le> n \<and> n \<le> 57)
      \<or> c = CHR ''_'' \<or> c = CHR ''.'' \<or> c = CHR ''-'' \<or> c = CHR ''~'')"

definition quote_char :: "char \<Rightarrow> string" where
  "quote_char c =
     (if always_safe c then [c]
      else [CHR ''%'', hexdigit (of_char c div 16), hexdigit (of_char c mod 16)])"

definition quote_plus :: "string \<Rightarrow> string" where
  "quote_plus s = concat (map (\<lambda>c. if c = CHR '' '' then ''+'' else quote_char c) s)"

section \<open>WebSearcher.search\<close>

record stub =
  title :: string
  url :: string
  snippet :: string

definition redirect_prefix :: string where
  "redirect_prefix = ''//duckduckgo.com/l/?''"

text \<open>Lines 62 to 71: the true destination of a DuckDuckGo redirect link.\<close>

definition resolve_redirect :: "string \<Rightarrow> string" where
  "resolve_redirect u =
     (if startswith u redirect_prefix then
        (case urlparse_query u of
           Inl e \<Rightarrow> u
         | Inr q \<Rightarrow> (let actual_url = qs_first ''uddg'' q in if actual_url \<noteq> [] then actual_url else u))
      else u)"

text \<open>The body of the loop for one result container: a stub, or nothing without a title anchor.\<close>

definition parse_result :: "node \<Rightarrow> stub option" where
  "parse_result result =
     (case find_first (named_class ''a'' ''result__a'') result of
        None \<Rightarrow> None
      | Some title_tag \<Rightarrow>
          Some \<lparr> title = get_text [] title_tag,
                 url = resolve_redirect (get_attr title_tag ''href'' []),
                 snippet = (case find_first (named_class ''a'' ''result__snippet'') result of
                              None \<Rightarrow> []
                            | Some snippet_tag \<Rightarrow> get_text [] snippet_tag) \<rparr>)"

fun parse_results :: "node list \<Rightarrow> stub list \<Rightarrow> stub list" where
  "parse_results [] results = results"
| "parse_results (result # rest) results =
     parse_results rest
       (case parse_result result of None \<Rightarrow> results | Some s \<Rightarrow> results @ [s])"

definition result_containers :: "node \<Rightarrow> node list" where
  "result_containers soup = find_all (named_class ''div'' ''result'') soup"

definition search_url :: "string \<Rightarrow> string" where
  "search_url query = ''https://html.duckduckgo.com/html/?q='' @ quote_plus query"

text \<open>
  \<open>search\<close>: the request and the HTML parser are the parameter \<open>web\<close>, which gives the parsed
  page of a URL or the exception raised on the way; any exception makes the result \<open>[]\<close>.
\<close>

definition search :: "(string \<Rightarrow> error + node) \<Rightarrow> string \<Rightarrow> int \<Rightarrow> stub list" where
  "search web query max_results =
     (case web (search_url query) of
        Inl e \<Rightarrow> []
      | Inr soup \<Rightarrow> parse_results (slice_to max_results (result_containers soup)) [])"

section \<open>ContentExtractor.fetch_content\<close>

text \<open>
  The dictionary \<open>fetch_content\<close> returns, with its keys \<open>title\<close>, \<open>url\<close>, \<open>content\<close> and
  \<open>text\<close> (the first two renamed, as \<open>stub\<close> has fields of those names, and the last
  named \<open>plain_text\<close> after the variable it is filled from).
\<close>

record page =
  page_title :: string
  page_url :: string
  content :: string
  plain_text :: string

text \<open>\<open>tag.string\<close>: the single string a tag holds, directly or through single children.\<close>

fun string_of :: "node \<Rightarrow> string option" where
  "string_of (Text s) = Some s"
| "string_of (Element t cl at cs) = (case cs of [c] \<Rightarrow> string_of c | _ \<Rightarrow> None)"

text \<open>Lines 116 to 120. A tag is always true as a condition, whatever it holds.\<close>

definition extract_title :: "node \<Rightarrow> string" where
  "extract_title soup =
     (case find_first (named [''title'']) soup of
        Some title_tag \<Rightarrow>
          (case string_of title_tag of
             Some s \<Rightarrow> (if s \<noteq> [] then strip s else [])
           | None \<Rightarrow> [])
      | None \<Rightarrow>
          (case find_first (named [''h1'']) soup of
             Some h1 \<Rightarrow> get_text [] h1
           | None \<Rightarrow> []))"

definition denylist :: "string list" where
  "denylist = [''script'', ''style'', ''nav'', ''footer'', ''header'', ''aside'']"

text \<open>
  Lines 123 and 124: every element \<open>soup([...])\<close> finds is decomposed, that is, taken out
  of its parent together with everything below it. What is left of the tree:
\<close>

fun decompose_all :: "string list \<Rightarrow> node \<Rightarrow> node" where
  "decompose_all ts (Text s) = Text s"
| "decompose_all ts (Element t cl at cs) =
     Element t cl at (map (decompose_all ts) (filter (\<lambda>c. \<not> named ts c) cs))"

text \<open>Line 127: \<open>soup.find('main') or soup.find('article') or soup.find('body')\<close>.\<close>

definition main_content :: "node \<Rightarrow> node option" where
  "main_content soup =
     (case find_first (named [''main'']) soup of
        Some m \<Rightarrow> Some m
      | None \<Rightarrow>
          (case find_first (named [''article'']) soup of
             Some a \<Rightarrow> Some a
           | None \<Rightarrow> find_first (named [''body'']) soup))"

text \<open>
  \<open>fetch_content\<close>. The parameter \<open>web\<close> is the request and the HTML parser, as in
  \<open>search\<close>; \<open>handle\<close> is the markdown converter applied to the serialised region,
  \<open>html_converter.handle(str(main_content))\<close>. Any exception makes the result \<open>None\<close>.
\<close>

definition fetch_content ::
  "(string \<Rightarrow> error + node) \<Rightarrow> (node \<Rightarrow> string) \<Rightarrow> string \<Rightarrow> page option" where
  "fetch_content web handle u =
     (case web u of
        Inl e \<Rightarrow> None
      | Inr soup \<Rightarrow>
          (let t = extract_title soup;
               soup' = decompose_all denylist soup
           in case main_content soup' of
                Some m \<Rightarrow>
                  Some \<lparr> page_title = t, page_url = u, content = handle m,
                         plain_text = get_text ''\<newline>'' m \<rparr>
              | None \<Rightarrow> None))"

section \<open>ResearchAgent\<close>

text \<open>An entry of \<open>results\<close>: \<open>{**result, 'extracted': content}\<close>.\<close>

record enriched = stub +
  extracted :: "page option"

text \<open>
  The two shapes of dictionary the agent returns: the one of \<open>research_topic\<close>, with the
  keys \<open>query\<close> and \<open>results\<close>, and the one of \<open>research_url\<close>, a page.
\<close>

datatype document = Topic string "enriched list" | Single page

text \<open>
  Lines 199 to 210: the loop over the search results. The state is the list
  \<open>extracted_content\<close> and the log of the URLs \<open>fetch_content\<close> was called with.
\<close>

fun extract_loop ::
  "(string \<Rightarrow> page option) \<Rightarrow> stub list \<Rightarrow> enriched list \<times> string list
     \<Rightarrow> enriched list \<times> string list" where
  "extract_loop fetch [] st = st"
| "extract_loop fetch (result # rest) (extracted_content, log) =
     extract_loop fetch rest
       (case fetch (url result) of
          Some c \<Rightarrow>
            (extracted_content @
               [\<lparr> title = title result, url = url result, snippet = snippet result,
                   extracted = Some c \<rparr>],
             log @ [url result])
        | None \<Rightarrow> (extracted_content, log @ [url result]))"

definition research_topic ::
  "(string \<Rightarrow> error + node) \<Rightarrow> (node \<Rightarrow> string) \<Rightarrow> string \<Rightarrow> int \<Rightarrow> document \<times> string list" where
  "research_topic web handle query max_results =
     (let search_results = search web query max_results in
      if search_results = [] then (Topic query [], [])
      else
        (case extract_loop (fetch_content web handle) search_results ([], []) of
           (extracted_content, log) \<Rightarrow> (Topic query extracted_content, log)))"

definition research_url ::
  "(string \<Rightarrow> error + node) \<Rightarrow> (node \<Rightarrow> string) \<Rightarrow> string \<Rightarrow> page option" where
  "research_url web handle u = fetch_content web handle u"

section \<open>ResultFormatter.format_markdown\<close>

text \<open>\<open>str(n)\<close> for a number that is not negative.\<close>

fun str_nat :: "nat \<Rightarrow> string" where
  "str_nat n = (if n < 10 then [char_of (48 + n)] else str_nat (n div 10) @ [char_of (48 + n mod 10)])"

declare str_nat.simps [simp del]

text \<open>Lines 270 to 272.\<close>

definition truncation_marker :: string where
  "truncation_marker = ''\<newline>\<newline>*[Content truncated...]*''"

definition truncate_content :: "string \<Rightarrow> string" where
  "truncate_content c = (if str_len c > 5000 then str_take 5000 c @ truncation_marker else c)"

text \<open>Lines 263 to 275: what one result appends to \<open>output\<close>.\<close>

definition markdown_result :: "nat \<Rightarrow> enriched \<Rightarrow> string list" where
  "markdown_result i result =
     [''## '' @ str_nat i @ ''. '' @ title result @ ''\<newline>'',
      ''**URL:** '' @ url result @ ''\<newline>'',
      ''**Summary:** '' @ snippet result @ ''\<newline>'']
     @ (case extracted result of
          Some e \<Rightarrow> [''\<newline>### Content\<newline>'', truncate_content (content e)]
        | None \<Rightarrow> [])
     @ [''\<newline>---\<newline>'']"

fun markdown_results :: "nat \<Rightarrow> enriched list \<Rightarrow> string list" where
  "markdown_results i [] = []"
| "markdown_results i (result # rest) = markdown_result i result @ markdown_results (Suc i) rest"

fun format_markdown :: "document \<Rightarrow> string" where
  "format_markdown (Topic query results) =
     join ''\<newline>''
       ([''# Research: '' @ query @ ''\<newline>'',
         ''*Generated by Research Agent*\<newline>'',
         ''*Found '' @ str_nat (length results) @ '' results*\<newline>'',
         ''---\<newline>'']
        @ markdown_results 1 results)"
| "format_markdown (Single data) =
     join ''\<newline>''
       [''# '' @ page_title data @ ''\<newline>'',
        ''**URL:** '' @ page_url data @ ''\<newline>'',
        ''\<newline>---\<newline>'',
        content data]"

section \<open>ResultFormatter.format_json\<close>

text \<open>
  The values \<open>json.dumps\<close> is given here: strings, lists and dictionaries with string keys
  (in insertion order).
\<close>

datatype json = JString string | JArray "json list" | JObject "(string \<times> json) list"

text \<open>
  The dictionaries of the agent as such values. An entry of \<open>results\<close> carries the key
  \<open>extracted\<close> when it has extracted content.
\<close>

definition page_json :: "page \<Rightarrow> json" where
  "page_json p =
     JObject [(''title'', JString (page_title p)), (''url'', JString (page_url p)),
              (''content'', JString (content p)), (''text'', JString (plain_text p))]"

definition result_json :: "enriched \<Rightarrow> json" where
  "result_json r =
     JObject ([(''title'', JString (title r)), (''url'', JString (url r)),
               (''snippet'', JString (snippet r))]
              @ (case extracted r of Some e \<Rightarrow> [(''extracted'', page_json e)] | None \<Rightarrow> []))"

fun to_json :: "document \<Rightarrow> json" where
  "to_json (Topic query results) =
     JObject [(''query'', JString query), (''results'', JArray (map result_json results))]"
| "to_json (Single data) = page_json data"

text \<open>
  The encoder with \<open>ensure_ascii=False\<close>: in a string, the quote, the backslash and the
  control characters are escaped, every other character is written as it is.
\<close>

definition lowhex :: "nat \<Rightarrow> char" where
  "lowhex n = (if n < 10 then char_of (48 + n) else char_of (87 + n))"

definition escape_char :: "char \<Rightarrow> string" where
  "escape_char c =
     (if c = CHR 0x22 then [CHR 0x5C, CHR 0x22]
      else if c = CHR 0x5C then [CHR 0x5C, CHR 0x5C]
      else if c = CHR 0x0A then [CHR 0x5C, CHR ''n'']
      else if c = CHR 0x0D then [CHR 0x5C, CHR ''r'']
      else if c = CHR 0x09 then [CHR 0x5C, CHR ''t'']
      else if c = CHR 0x08 then [CHR 0x5C, CHR ''b'']
      else if c = CHR 0x0C then [CHR 0x5C, CHR ''f'']
      else if (of_char c :: nat) < 32
        then [CHR 0x5C, CHR ''u'', CHR ''0'', CHR ''0'',
              lowhex (of_char c div 16), lowhex (of_char c mod 16)]
      else [c])"

definition encode_string :: "string \<Rightarrow> string" where
  "encode_string s = CHR 0x22 # concat (map escape_char s) @ [CHR 0x22]"

text \<open>
  With \<open>indent=2\<close>: every item of a list or dictionary that is not empty goes on a line of
  its own, indented by two spaces per level; items are separated by a comma, key and
  value by a colon and a space.
\<close>

definition newline_indent :: "nat \<Rightarrow> string" where
  "newline_indent level = CHR 0x0A # replicate (2 * level) CHR '' ''"

fun dumps :: "nat \<Rightarrow> json \<Rightarrow> string" where
  "dumps level (JString s) = encode_string s"
| "dumps level (JArray xs) =
     (if xs = [] then ''[]''
      else ''['' @ newline_indent (Suc level)
           @ join ('','' @ newline_indent (Suc level)) (map (dumps (Suc level)) xs)
           @ newline_indent level @ '']'')"
| "dumps level (JObject kvs) =
     (if kvs = [] then ''{}''
      else ''{'' @ newline_indent (Suc level)
           @ join ('','' @ newline_indent (Suc level))
               (map (\<lambda>(k, v). encode_string k @ '': '' @ dumps (Suc level) v) kvs)
           @ newline_indent level @ ''}'')"

text \<open>Lines 286 to 289.\<close>

definition format_json :: "document \<Rightarrow> string" where
  "format_json data = dumps 0 (to_json data)"

section \<open>Reading JSON back (json.loads)\<close>

text \<open>
  The decoder, for the values above. White space is skipped between the tokens. In a
  string a control character is an error, and so is an escape other than those of JSON;
  \<open>\uXXXX\<close> gives the character of that code, and two such escapes that form a surrogate
  pair give the character of the pair. (A surrogate that stays alone gives \<open>None\<close> here:
  the \<open>str\<close> the library returns for it has no encoding.)
\<close>

definition utf8_encode :: "nat \<Rightarrow> string" where
  "utf8_encode n =
     (if n < 128 then [char_of n]
      else if n < 2048 then [char_of (192 + n div 64), char_of (128 + n mod 64)]
      else if n < 65536 then
        [char_of (224 + n div 4096), char_of (128 + n div 64 mod 64), char_of (128 + n mod 64)]
      else
        [char_of (240 + n div 262144), char_of (128 + n div 4096 mod 64),
         char_of (128 + n div 64 mod 64), char_of (128 + n mod 64)])"

definition hex4 :: "char \<Rightarrow> char \<Rightarrow> char \<Rightarrow> char \<Rightarrow> nat option" where
  "hex4 a b c d =
     (case (hexval a, hexval b, hexval c, hexval d) of
        (Some x3, Some x2, Some x1, Some x0) \<Rightarrow> Some (4096 * x3 + 256 * x2 + 16 * x1 + x0)
      | _ \<Rightarrow> None)"

definition prepend_all :: "string \<Rightarrow> (string \<times> string) option \<Rightarrow> (string \<times> string) option" where
  "prepend_all p r = (case r of Some (s, rest) \<Rightarrow> Some (p @ s, rest) | None \<Rightarrow> None)"

definition json_space :: "char \<Rightarrow> bool" where
  "json_space c = (c \<in> set [CHR '' '', CHR 0x09, CHR 0x0A, CHR 0x0D])"

definition skip_ws :: "string \<Rightarrow> string" where
  "skip_ws s = dropWhile json_space s"

definition unescape :: "char \<Rightarrow> char option" where
  "unescape e =
     (if e = CHR 0x22 then Some (CHR 0x22)
      else if e = CHR 0x5C then Some (CHR 0x5C)
      else if e = CHR ''/'' then Some (CHR ''/'')
      else if e = CHR ''b'' then Some (CHR 0x08)
      else if e = CHR ''f'' then Some (CHR 0x0C)
      else if e = CHR ''n'' then Some (CHR 0x0A)
      else if e = CHR ''r'' then Some (CHR 0x0D)
      else if e = CHR ''t'' then Some (CHR 0x09)
      else None)"

definition prepend :: "char \<Rightarrow> (string \<times> string) option \<Rightarrow> (string \<times> string) option" where
  "prepend c r = (case r of Some (s, rest) \<Rightarrow> Some (c # s, rest) | None \<Rightarrow> None)"

text \<open>The string after its opening quote: its characters and what follows the closing quote.\<close>

fun scan_string :: "string \<Rightarrow> (string \<times> string) option" where
  "scan_string [] = None"
| "scan_string (c # cs) =
     (if c = CHR 0x22 then Some ([], cs)
      else if c = CHR 0x5C then
        (case cs of
           [] \<Rightarrow> None
         | e # r \<Rightarrow>
             (if e = CHR ''u'' then
                (case r of
                   a # b # c' # d # r' \<Rightarrow>
                     (case hex4 a b c' d of
                        None \<Rightarrow> None
                      | Some n \<Rightarrow>
                          if n < 55296 \<or> 57344 \<le> n
                            then prepend_all (utf8_encode n) (scan_string r')
                          else if 56320 \<le> n then None
                          else
                            (case r' of
                               bs # u # a2 # b2 # c2 # d2 # r2 \<Rightarrow>
                                 (if bs = CHR 0x5C \<and> u = CHR ''u'' then
                                    (case hex4 a2 b2 c2 d2 of
                                       None \<Rightarrow> None
                                     | Some n2 \<Rightarrow>
                                         if 56320 \<le> n2 \<and> n2 < 57344
                                           then prepend_all
                                                  (utf8_encode (65536 + 1024 * (n - 55296) + (n2 - 56320)))
                                                  (scan_string r2)
                                         else None)
                                  else None)
                             | _ \<Rightarrow> None))
                 | _ \<Rightarrow> None)
              else (case unescape e of
                      Some x \<Rightarrow> prepend x (scan_string r)
                    | None \<Rightarrow> None)))
      else if (of_char c :: nat) < 32 then None
      else prepend c (scan_string cs))"

text \<open>Setting a key of a dictionary: a key already there keeps its place.\<close>

fun dict_set :: "(string \<times> json) list \<Rightarrow> string \<Rightarrow> json \<Rightarrow> (string \<times> json) list" where
  "dict_set [] k v = [(k, v)]"
| "dict_set ((k', v') # d) k v = (if k' = k then (k', v) # d else (k', v') # dict_set d k v)"

definition dict_of :: "(string \<times> json) list \<Rightarrow> (string \<times> json) list" where
  "dict_of pairs = foldl (\<lambda>d (k, v). dict_set d k v) [] pairs"

text \<open>
  The recursive descent, with the nesting it may still enter as its first argument:
  a value, the items of a list after its bracket, the members of a dictionary after its
  brace. Each gives what it read and the rest of the input.
\<close>

fun parse_value :: "nat \<Rightarrow> string \<Rightarrow> (json \<times> string) option"
  and parse_items :: "nat \<Rightarrow> string \<Rightarrow> (json list \<times> string) option"
  and parse_members :: "nat \<Rightarrow> string \<Rightarrow> ((string \<times> json) list \<times> string) option" where
  "parse_value 0 s = None"
| "parse_value (Suc n) s =
     (case skip_ws s of
        [] \<Rightarrow> None
      | c # r \<Rightarrow>
          (if c = CHR 0x22 then
             (case scan_string r of Some (str, r') \<Rightarrow> Some (JString str, r') | None \<Rightarrow> None)
           else if c = CHR ''['' then
             (case skip_ws r of
                [] \<Rightarrow> None
              | c' # r' \<Rightarrow>
                  (if c' = CHR '']'' then Some (JArray [], r')
                   else (case parse_items n r of
                           Some (xs, r'') \<Rightarrow> Some (JArray xs, r'')
                         | None \<Rightarrow> None)))
           else if c = CHR ''{'' then
             (case skip_ws r of
                [] \<Rightarrow> None
              | c' # r' \<Rightarrow>
                  (if c' = CHR ''}'' then Some (JObject [], r')
                   else (case parse_members n r of
                           Some (kvs, r'') \<Rightarrow> Some (JObject (dict_of kvs), r'')
                         | None \<Rightarrow> None)))
           else None))"
| "parse_items 0 s = None"
| "parse_items (Suc n) s =
     (case parse_value n s of
        None \<Rightarrow> None
      | Some (x, r) \<Rightarrow>
          (case skip_ws r of
             [] \<Rightarrow> None
           | c # r' \<Rightarrow>
               (if c = CHR '','' then
                  (case parse_items n r' of
                     Some (xs, r'') \<Rightarrow> Some (x # xs, r'')
                   | None \<Rightarrow> None)
                else if c = CHR '']'' then Some ([x], r')
                else None)))"
| "parse_members 0 s = None"
| "parse_members (Suc n) s =
     (case skip_ws s of
        [] \<Rightarrow> None
      | q # r \<Rightarrow>
          (if q = CHR 0x22 then
             (case scan_string r of
                None \<Rightarrow> None
              | Some (k, r1) \<Rightarrow>
                  (case skip_ws r1 of
                     [] \<Rightarrow> None
                   | c # r2 \<Rightarrow>
                       (if c = CHR '':'' then
                          (case parse_value n r2 of
                             None \<Rightarrow> None
                           | Some (v, r3) \<Rightarrow>
                               (case skip_ws r3 of
                                  [] \<Rightarrow> None
                                | c' # r4 \<Rightarrow>
                                    (if c' = CHR '','' then
                                       (case parse_members n r4 of
                                          Some (kvs, r5) \<Rightarrow> Some ((k, v) # kvs, r5)
                                        | None \<Rightarrow> None)
                                     else if c' = CHR ''}'' then Some ([(k, v)], r4)
                                     else None)))
                        else None)))
           else None))"

text \<open>\<open>json.loads\<close>: one value, with nothing but white space after it.\<close>

definition loads :: "string \<Rightarrow> json option" where
  "loads s =
     (case parse_value (length s) s of
        Some (v, r) \<Rightarrow> (if skip_ws r = [] then Some v else None)
      | None \<Rightarrow> None)"

text \<open>Reading the dictionaries of the agent back from such values.\<close>

definition get_string :: "(string \<times> json) list \<Rightarrow> string \<Rightarrow> string option" where
  "get_string d k = (case map_of d k of Some (JString s) \<Rightarrow> Some s | _ \<Rightarrow> None)"

definition json_page :: "json \<Rightarrow> page option" where
  "json_page j =
     (case j of
        JObject d \<Rightarrow>
          (case (get_string d ''title'', get_string d ''url'',
                 get_string d ''content'', get_string d ''text'') of
             (Some t, Some u, Some c, Some x) \<Rightarrow>
               Some \<lparr> page_title = t, page_url = u, content = c, plain_text = x \<rparr>
           | _ \<Rightarrow> None)
      | _ \<Rightarrow> None)"

definition json_result :: "json \<Rightarrow> enriched option" where
  "json_result j =
     (case j of
        JObject d \<Rightarrow>
          (case (get_string d ''title'', get_string d ''url'', get_string d ''snippet'') of
             (Some t, Some u, Some s) \<Rightarrow>
               (case map_of d ''extracted'' of
                  None \<Rightarrow> Some \<lparr> title = t, url = u, snippet = s, extracted = None \<rparr>
                | Some e \<Rightarrow>
                    (case json_page e of
                       Some p \<Rightarrow> Some \<lparr> title = t, url = u, snippet = s, extracted = Some p \<rparr>
                     | None \<Rightarrow> None))
           | _ \<Rightarrow> None)
      | _ \<Rightarrow> None)"

fun those_results :: "json list \<Rightarrow> enriched list option" where
  "those_results [] = Some []"
| "those_results (j # js) =
     (case (json_result j, those_results js) of
        (Some r, Some rs) \<Rightarrow> Some (r # rs)
      | _ \<Rightarrow> None)"

definition json_document :: "json \<Rightarrow> document option" where
  "json_document j =
     (case j of
        JObject d \<Rightarrow>
          (case map_of d ''query'' of
             Some (JString q) \<Rightarrow>
               (case map_of d ''results'' of
                  Some (JArray js) \<Rightarrow>
                    (case those_results js of Some rs \<Rightarrow> Some (Topic q rs) | None \<Rightarrow> None)
                | _ \<Rightarrow> None)
           | Some _ \<Rightarrow> None
           | None \<Rightarrow> (case json_page j of Some p \<Rightarrow> Some (Single p) | None \<Rightarrow> None))
      | _ \<Rightarrow> None)"

text \<open>
  A value is a dictionary structure when no dictionary in it holds a key twice; the
  nesting the decoder enters to read a value back is bounded by its size.
\<close>

fun distinct_keys :: "json \<Rightarrow> bool" where
  "distinct_keys (JString s) = True"
| "distinct_keys (JArray xs) = list_all distinct_keys xs"
| "distinct_keys (JObject kvs) =
     (distinct (map fst kvs) \<and> list_all (\<lambda>kv. distinct_keys (snd kv)) kvs)"

fun fuel :: "json \<Rightarrow> nat" where
  "fuel (JString s) = 1"
| "fuel (JArray xs) = Suc (sum_list (map (\<lambda>x. Suc (fuel x)) xs))"
| "fuel (JObject kvs) = Suc (sum_list (map (\<lambda>kv. Suc (fuel (snd kv))) kvs))"

section \<open>Notions of the specification\<close>

text \<open>A result container is well-formed when it holds a title anchor.\<close>

definition has_title_anchor :: "node \<Rightarrow> bool" where
  "has_title_anchor c = (find_first (named_class ''a'' ''result__a'') c \<noteq> None)"

text \<open>\<open>data['results']\<close> of a topic document.\<close>

fun topic_results :: "document \<Rightarrow> enriched list" where
  "topic_results (Topic query results) = results"
| "topic_results (Single data) = []"

text \<open>The stub an entry of \<open>results\<close> was built from: the entry without \<open>extracted\<close>.\<close>

definition stub_of :: "enriched \<Rightarrow> stub" where
  "stub_of r = \<lparr> title = title r, url = url r, snippet = snippet r \<rparr>"

text \<open>
  A string is well-formed UTF-8, the encoding of a \<open>str\<close>, when decoding it replaces
  nothing.
\<close>

definition valid_utf8 :: "string \<Rightarrow> bool" where
  "valid_utf8 s = (utf8_replace s = s)"

text \<open>
  \<open>url_encodes enc d\<close>: the ASCII string \<open>enc\<close> is a URL-encoding of the bytes \<open>d\<close>. Every
  byte of \<open>d\<close> is written as \<open>%XX\<close>, with hexadecimal digits of either case, or, when it is
  an ASCII character other than \<open>%\<close>, \<open>&\<close>, \<open>#\<close>, \<open>+\<close>, tab, CR and LF, as itself; a space
  may also be written as \<open>+\<close>.
\<close>

definition literal :: "char \<Rightarrow> bool" where
  "literal c =
     ((of_char c :: nat) < 128
      \<and> c \<notin> set [CHR ''%'', CHR ''&'', CHR ''#'', CHR ''+'', CHR 0x09, CHR 0x0D, CHR 0x0A])"

fun url_encodes :: "string \<Rightarrow> string \<Rightarrow> bool" where
  "url_encodes [] d = (d = [])"
| "url_encodes (e # es) [] = False"
| "url_encodes (e # es) (x # xs) =
     (if e = CHR ''%'' then
        (case es of
           h # l # es' \<Rightarrow>
             (case (hexval h, hexval l) of
                (Some a, Some b) \<Rightarrow> char_of (16 * a + b) = x \<and> url_encodes es' xs
              | _ \<Rightarrow> False)
         | _ \<Rightarrow> False)
      else if e = CHR ''+'' then x = CHR '' '' \<and> url_encodes es xs
      else e = x \<and> literal e \<and> url_encodes es xs)"

text \<open>An absolute URL starts with a scheme, a colon and two slashes.\<close>

definition is_absolute_url :: "string \<Rightarrow> bool" where
  "is_absolute_url u =
     (let pre = takeWhile (\<lambda>c. c \<noteq> CHR '':'') u in
      pre \<noteq> [] \<and> ascii_alpha (hd u) \<and> list_all scheme_char pre
      \<and> startswith (drop (length pre) u) ''://'')"

text \<open>The text of a \<open>title\<close> element: its string, stripped.\<close>

definition title_text :: "node \<Rightarrow> string" where
  "title_text t = (case string_of t of Some s \<Rightarrow> strip s | None \<Rightarrow> [])"

text \<open>
  The title as the specification words it: the text of \<open>title\<close> when that is not empty,
  else the text of the first \<open>h1\<close>, else the empty string.
\<close>

definition spec_title :: "node \<Rightarrow> string" where
  "spec_title soup =
     (let t = (case find_first (named [''title'']) soup of
                 Some title_tag \<Rightarrow> title_text title_tag
               | None \<Rightarrow> [])
      in if t \<noteq> [] then t
         else (case find_first (named [''h1'']) soup of
                 Some h1 \<Rightarrow> get_text [] h1
               | None \<Rightarrow> []))"

text \<open>The nodes below a node that lie outside every element of the given tags.\<close>

fun outside_descendants :: "string list \<Rightarrow> node \<Rightarrow> node list" where
  "outside_descendants ts (Text s) = []"
| "outside_descendants ts (Element t cl at cs) =
     concat (map (\<lambda>c. if named ts c then [] else c # outside_descendants ts c) cs)"

text \<open>
  The strings of a node that do not originate from an element of the given tags: such an
  element contributes nothing, whatever it holds.
\<close>

fun strings_outside :: "string list \<Rightarrow> node \<Rightarrow> string list" where
  "strings_outside ts (Text s) = [s]"
| "strings_outside ts (Element t cl at cs) =
     (if t \<in> set ts then [] else concat (map (strings_outside ts) cs))"

section \<open>Example pages\<close>

definition title_anchor :: "string \<Rightarrow> string \<Rightarrow> node" where
  "title_anchor href t = Element ''a'' [''result__a''] [(''href'', href)] [Text t]"

definition snippet_anchor :: "string \<Rightarrow> node" where
  "snippet_anchor t = Element ''a'' [''result__snippet''] [] [Text t]"

definition result_div :: "node list \<Rightarrow> node" where
  "result_div cs = Element ''div'' [''result'', ''web-result''] [] cs"

definition html_page :: "node list \<Rightarrow> node list \<Rightarrow> node" where
  "html_page hd_nodes body_nodes =
     Element ''[document]'' [] []
       [Element ''html'' [] [] [Element ''head'' [] [] hd_nodes, Element ''body'' [] [] body_nodes]]"

text \<open>A results page whose first container has no title anchor.\<close>

definition mixed_page :: node where
  "mixed_page =
     html_page []
       [result_div [snippet_anchor ''sponsored''],
        result_div [title_anchor ''https://a.example/'' ''A'', snippet_anchor ''about a'']]"

definition mixed_web :: "string \<Rightarrow> error + node" where
  "mixed_web u = Inr mixed_page"

text \<open>A results page with two well-formed containers.\<close>

definition two_page :: node where
  "two_page =
     html_page []
       [result_div [title_anchor ''https://a.example/'' ''A'', snippet_anchor ''about a''],
        result_div [title_anchor ''https://b.example/'' ''B'']]"

definition two_web :: "string \<Rightarrow> error + node" where
  "two_web u = Inr two_page"

text \<open>A container whose title anchor has neither an \<open>href\<close> nor a snippet beside it.\<close>

definition bare_container :: node where
  "bare_container = result_div [Element ''a'' [''result__a''] [] [Text ''Bare'']]"

text \<open>A stand-in for the markdown converter: the strings of the region, one per line.\<close>

definition sample_handle :: "node \<Rightarrow> string" where
  "sample_handle n = join ''\<newline>'' (all_strings n)"

text \<open>
  The scenario of the specification: three results for \<open>rust ownership\<close>, the second of
  which cannot be fetched.
\<close>

definition three_page :: node where
  "three_page =
     html_page []
       [result_div [title_anchor ''https://a.example/'' ''A'', snippet_anchor ''about a''],
        result_div [title_anchor ''https://b.example/'' ''B'', snippet_anchor ''about b''],
        result_div [title_anchor ''https://c.example/'' ''C'', snippet_anchor ''about c'']]"

definition article_page :: node where
  "article_page =
     html_page [Element ''title'' [] [] [Text '' Ownership '']]
       [Element ''nav'' [] [] [Text ''menu''],
        Element ''article'' [] []
          [Element ''h1'' [] [] [Text ''Ownership''],
           Element ''aside'' [] [] [Text ''advert''],
           Element ''p'' [] [] [Text '' Each value has an owner. '']]]"

definition topic_web :: "string \<Rightarrow> error + node" where
  "topic_web u =
     (if u = ''https://html.duckduckgo.com/html/?q=rust+ownership'' then Inr three_page
      else if u = ''https://b.example/'' then Inl RequestException
      else Inr article_page)"

text \<open>No page can be fetched.\<close>

definition down_web :: "string \<Rightarrow> error + node" where
  "down_web u = Inl RequestException"

text \<open>A results page whose links are a redirect without destination and a relative path.\<close>

definition indirect_page :: node where
  "indirect_page =
     html_page []
       [result_div [title_anchor ''//duckduckgo.com/l/?kh=1'' ''A''],
        result_div [title_anchor ''/about'' ''B'']]"

definition indirect_web :: "string \<Rightarrow> error + node" where
  "indirect_web u =
     (if u = ''https://html.duckduckgo.com/html/?q=rust'' then Inr indirect_page
      else Inl RequestException)"

text \<open>Results with a long and a short body.\<close>

definition body_result :: "string \<Rightarrow> enriched" where
  "body_result c =
     \<lparr> title = ''A'', url = ''https://a.example/'', snippet = ''about a'',
       extracted = Some \<lparr> page_title = ''A'', page_url = ''https://a.example/'',
                          content = c, plain_text = c \<rparr> \<rparr>"

text \<open>A page with an empty \<open>title\<close> element and a heading.\<close>

definition empty_title_page :: node where
  "empty_title_page =
     html_page [Element ''title'' [] [] []]
       [Element ''main'' [] [] [Element ''h1'' [] [] [Text ''Heading''], Text ''body text'']]"

definition empty_title_web :: "string \<Rightarrow> error + node" where
  "empty_title_web u = Inr empty_title_page"

text \<open>A page whose body holds nothing.\<close>

definition empty_body_page :: node where
  "empty_body_page = html_page [] []"

definition empty_body_web :: "string \<Rightarrow> error + node" where
  "empty_body_web u = Inr empty_body_page"

text \<open>A page without \<open>title\<close> element, with a heading in its main region.\<close>

definition heading_page :: node where
  "heading_page =
     html_page []
       [Element ''main'' [] [] [Element ''h1'' [] [] [Text '' Heading ''], Text ''body text'']]"

definition heading_web :: "string \<Rightarrow> error + node" where
  "heading_web u = Inr heading_page"

text \<open>What the parser makes of an empty response: a tree without any element.\<close>

definition blank_page :: node where
  "blank_page = Element ''[document]'' [] [] []"

definition blank_web :: "string \<Rightarrow> error + node" where
  "blank_web u = Inr blank_page"

text \<open>
  A page whose navigation bar holds an \<open>article\<close> element before the article proper, which
  holds an \<open>aside\<close>.
\<close>

definition decoy_page :: node where
  "decoy_page =
     html_page [Element ''title'' [] [] [Text '' Ownership '']]
       [Element ''nav'' [] [] [Element ''article'' [] [] [Text ''menu'']],
        Element ''article'' [] []
          [Element ''h1'' [] [] [Text ''Ownership''],
           Element ''aside'' [] [] [Text ''advert''],
           Element ''p'' [] [] [Text '' Each value has an owner. '']]]"

definition decoy_web :: "string \<Rightarrow> error + node" where
  "decoy_web u = Inr decoy_page"

text \<open>
  A results page whose links are a redirect-wrapper link and a relative path, with a
  container without title anchor between them.
\<close>

definition wrapped_page :: node where
  "wrapped_page =
     html_page []
       [result_div
          [title_anchor ''//duckduckgo.com/l/?kh=1&uddg=https%3A%2F%2Fa.example%2Fcaf%C3%A9&rut=2'' ''A''],
        result_div [snippet_anchor ''sponsored''],
        result_div [title_anchor ''/about'' ''B''],
        result_div [title_anchor ''https://c.example/'' ''C'']]"

definition wrapped_web :: "string \<Rightarrow> error + node" where
  "wrapped_web u =
     (if u = ''https://html.duckduckgo.com/html/?q=rust'' then Inr wrapped_page
      else Inl RequestException)"

section \<open>Properties\<close>

subsection \<open>The result-list parser\<close>

lemma parse_results_eq: "parse_results cs acc = acc @ List.map_filter parse_result cs"
  by (induction cs arbitrary: acc) (auto simp: List.map_filter_simps split: option.splits)

lemma search_page:
  "web (search_url q) = Inr soup \<Longrightarrow>
   search web q m = List.map_filter parse_result (slice_to m (result_containers soup))"
  by (simp add: search_def parse_results_eq)

lemma parse_result_anchor: "has_title_anchor c \<Longrightarrow> \<exists>s. parse_result c = Some s"
  by (auto simp: has_title_anchor_def parse_result_def split: option.splits)

lemma map_filter_all_some:
  "\<forall>c\<in>set cs. \<exists>s. f c = Some s \<Longrightarrow> map Some (List.map_filter f cs) = map f cs"
  by (induction cs) (auto simp: List.map_filter_simps)

text \<open>
  C2, as amended. For a bound \<open>m\<close> that is not negative, when each of the first \<open>m\<close> result
  containers of the page has a title anchor, \<open>search\<close> returns exactly
  \<open>min K m\<close> stubs, \<open>K\<close> the number of result containers, and the stubs are those of the
  first \<open>m\<close> containers, one for one and in document order.
\<close>

theorem search_count:
  assumes "0 \<le> m" and "web (search_url q) = Inr soup"
    and "\<forall>c\<in>set (take (nat m) (result_containers soup)). has_title_anchor c"
  shows "length (search web q m) = min (length (result_containers soup)) (nat m)
       \<and> map Some (search web q m) = map parse_result (take (nat m) (result_containers soup))"
proof -
  let ?cs = "take (nat m) (result_containers soup)"
  have s: "search web q m = List.map_filter parse_result ?cs"
    using assms(1,2) by (simp add: search_page slice_to_def)
  have "\<forall>c\<in>set ?cs. \<exists>s. parse_result c = Some s"
    using assms(3) parse_result_anchor by blast
  then have m: "map Some (List.map_filter parse_result ?cs) = map parse_result ?cs"
    by (rule map_filter_all_some)
  have "length (map Some (search web q m)) = length (map parse_result ?cs)"
    using s m by simp
  then have "length (search web q m) = min (length (result_containers soup)) (nat m)"
    by simp
  then show ?thesis using s m by simp
qed

theorem search_count_witness:
  "length (search two_web ''rust'' 1) = min (length (result_containers two_page)) (nat 1)
   \<and> map Some (search two_web ''rust'' 1) = map parse_result (take (nat 1) (result_containers two_page))
   \<and> length (search two_web ''rust'' 1) = 1"
proof -
  have h1: "(0::int) \<le> 1" by simp
  have h2: "two_web (search_url ''rust'') = Inr two_page" by (simp add: two_web_def)
  have h3: "\<forall>c\<in>set (take (nat 1) (result_containers two_page)). has_title_anchor c"
    by code_simp
  have l: "length (result_containers two_page) = 2" by code_simp
  show ?thesis
    using search_count [where m = 1 and web = two_web and q = "''rust''" and soup = two_page,
        OF h1 h2 h3] l
    by simp
qed

text \<open>
  C2 as stated fails where a container without a title anchor comes first: the cap is
  applied to the containers before the ones without an anchor are skipped. The page has
  one well-formed container and the bound is 1, yet no stub is returned.
\<close>

theorem search_count_counterexample:
  "length (search mixed_web ''rust'' 1)
     \<noteq> min (length (filter has_title_anchor (result_containers mixed_page))) (nat 1)"
  by code_simp

text \<open>
  C10. A result container with a title anchor yields a stub; its snippet is the empty
  string when the container has no snippet element, and its url is the empty string when
  the anchor has no \<open>href\<close> attribute.
\<close>

theorem stub_defaults:
  assumes "find_first (named_class ''a'' ''result__a'') result = Some (Element t cl at cs)"
  shows "\<exists>s. parse_result result = Some s
       \<and> (find_first (named_class ''a'' ''result__snippet'') result = None \<longrightarrow> snippet s = [])
       \<and> (map_of at ''href'' = None \<longrightarrow> url s = [])"
  using assms by (simp add: parse_result_def resolve_redirect_def startswith_def redirect_prefix_def)

theorem stub_defaults_witness:
  "parse_result bare_container = Some \<lparr> title = ''Bare'', url = [], snippet = [] \<rparr>"
proof -
  have a: "find_first (named_class ''a'' ''result__a'') bare_container
             = Some (Element ''a'' [''result__a''] [] [Text ''Bare''])"
    by code_simp
  have n: "find_first (named_class ''a'' ''result__snippet'') bare_container = None"
    by code_simp
  have e: "map_of ([] :: (string \<times> string) list) ''href'' = None" by simp
  from stub_defaults [OF a] n e
  obtain s where s: "parse_result bare_container = Some s" "snippet s = []" "url s = []"
    by blast
  have "parse_result bare_container \<noteq> None \<and> title (the (parse_result bare_container)) = ''Bare''"
    by code_simp
  with s have "title s = ''Bare''" by simp
  with s show ?thesis by simp
qed

subsection \<open>Redirect links\<close>

lemma unquote_to_bytes_plain:
  "c \<noteq> CHR ''%'' \<Longrightarrow> unquote_to_bytes (c # s) = c # unquote_to_bytes s"
  by (cases "c # s" rule: unquote_to_bytes.cases) auto

lemma hexval_plain:
  assumes "hexval h = Some a"
  shows "(of_char h :: nat) < 128
       \<and> h \<notin> set [CHR ''&'', CHR ''+'', CHR ''#'', CHR 0x09, CHR 0x0D, CHR 0x0A]"
proof -
  have "of_char h \<noteq> (38::nat) \<and> of_char h \<noteq> (43::nat) \<and> of_char h \<noteq> (35::nat)
      \<and> of_char h \<noteq> (9::nat) \<and> of_char h \<noteq> (13::nat) \<and> of_char h \<noteq> (10::nat)
      \<and> (of_char h :: nat) < 128"
    using assms by (auto simp: hexval_def Let_def split: if_splits)
  then show ?thesis by auto
qed

lemma url_encodes_bytes:
  "url_encodes enc d \<Longrightarrow>
   unquote_to_bytes (map (\<lambda>c. if c = CHR ''+'' then CHR '' '' else c) enc) = d"
proof (induction enc d rule: url_encodes.induct)
  case (3 e es x xs)
  show ?case
  proof (cases "e = CHR ''%''")
    case True
    with "3.prems" obtain h l es' a b where es: "es = h # l # es'"
        and hv: "hexval h = Some a" "hexval l = Some b"
        and x: "char_of (16 * a + b) = x"
        and r: "url_encodes es' xs"
      by (auto split: list.splits option.splits)
    have "(hexval h, hexval l) = (hexval h, hexval l)" by simp
    from "3.IH"(1)[OF True es refl this hv r]
    have ih: "unquote_to_bytes (map (\<lambda>c. if c = CHR ''+'' then CHR '' '' else c) es') = xs" .
    have "h \<noteq> CHR ''+''" "l \<noteq> CHR ''+''"
      using hexval_plain[OF hv(1)] hexval_plain[OF hv(2)] by auto
    then show ?thesis using True es hv x ih by simp
  next
    case False
    note notpct = this
    show ?thesis
    proof (cases "e = CHR ''+''")
      case True
      with "3.prems" have x: "x = CHR '' ''" and r: "url_encodes es xs" by auto
      from "3.IH"(2)[OF notpct True r] show ?thesis
        using True x by (simp add: unquote_to_bytes_plain)
    next
      case False
      with notpct "3.prems" have x: "e = x" and r: "url_encodes es xs" by auto
      from "3.IH"(3)[OF notpct False r] show ?thesis
        using False notpct x by (simp add: unquote_to_bytes_plain)
    qed
  qed
qed simp_all

lemma url_encodes_plain:
  "url_encodes enc d \<Longrightarrow> c \<in> set enc \<Longrightarrow>
   (of_char c :: nat) < 128
   \<and> c \<notin> set [CHR ''&'', CHR ''#'', CHR 0x09, CHR 0x0D, CHR 0x0A]"
proof (induction enc d rule: url_encodes.induct)
  case (3 e es x xs)
  show ?case
  proof (cases "e = CHR ''%''")
    case True
    with "3.prems" obtain h l es' a b where es: "es = h # l # es'"
        and hv: "hexval h = Some a" "hexval l = Some b"
        and r: "url_encodes es' xs"
      by (auto split: list.splits option.splits)
    from "3.prems"(2) es consider "c = e" | "c = h" | "c = l" | "c \<in> set es'" by auto
    then show ?thesis
    proof cases
      case 1 then show ?thesis using True by simp
    next
      case 2 then show ?thesis using hexval_plain[OF hv(1)] by simp
    next
      case 3 then show ?thesis using hexval_plain[OF hv(2)] by simp
    next
      case 4
      have "(hexval h, hexval l) = (hexval h, hexval l)" by simp
      from "3.IH"(1)[OF True es refl this hv r 4] show ?thesis .
    qed
  next
    case False
    note notpct = this
    show ?thesis
    proof (cases "e = CHR ''+''")
      case True
      with "3.prems" have r: "url_encodes es xs" by auto
      from "3.prems"(2) consider "c = e" | "c \<in> set es" by auto
      then show ?thesis
      proof cases
        case 1 then show ?thesis using True by simp
      next
        case 2
        from "3.IH"(2)[OF notpct True r 2] show ?thesis .
      qed
    next
      case False
      with notpct "3.prems" have e: "literal e" and r: "url_encodes es xs" by auto
      from "3.prems"(2) consider "c = e" | "c \<in> set es" by auto
      then show ?thesis
      proof cases
        case 1 then show ?thesis using e by (auto simp: literal_def)
      next
        case 2
        from "3.IH"(3)[OF notpct False r 2] show ?thesis .
      qed
    qed
  qed
qed simp_all

lemma unquote_runs_ascii:
  "\<forall>c\<in>set s. (of_char c :: nat) < 128 \<Longrightarrow>
   unquote_runs run s = utf8_replace (unquote_to_bytes (run @ s))"
  by (induction s arbitrary: run) simp_all

lemma unquote_encoded:
  assumes "url_encodes enc d" and "valid_utf8 d"
  shows "unquote_plus enc = d"
proof -
  let ?enc = "map (\<lambda>c. if c = CHR ''+'' then CHR '' '' else c) enc"
  have "\<forall>c\<in>set enc. (of_char c :: nat) < 128" using url_encodes_plain[OF assms(1)] by blast
  then have "\<forall>c\<in>set ?enc. (of_char c :: nat) < 128" by auto
  then have "unquote ?enc = utf8_replace (unquote_to_bytes ?enc)"
    by (simp add: unquote_def unquote_runs_ascii)
  then show ?thesis
    using url_encodes_bytes[OF assms(1)] assms(2) by (simp add: valid_utf8_def unquote_plus_def)
qed

lemma split_nonempty: "split sep s \<noteq> []"
  by (induction s) (auto split: list.splits)

lemma split_no_sep: "sep \<notin> set a \<Longrightarrow> split sep a = [a]"
  by (induction a) auto

lemma split_append: "split sep (a @ sep # r) = split sep a @ split sep r"
proof (induction a)
  case Nil
  then show ?case by simp
next
  case (Cons c a)
  obtain p ps where p: "split sep a = p # ps" using split_nonempty[of sep a] by (cases "split sep a") auto
  show ?case using Cons p by simp
qed

lemma parse_qsl_fields: "parse_qsl qs = concat (map parse_field (split CHR ''&'' qs))"
  by (simp add: parse_qsl_def parse_field_def)

lemma parse_qsl_append: "parse_qsl (a @ CHR ''&'' # r) = parse_qsl a @ parse_qsl r"
  by (simp add: parse_qsl_fields split_append)

lemma unquote_plus_uddg: "unquote_plus ''uddg'' = ''uddg''"
  by code_simp

lemma parse_qsl_uddg:
  assumes ne: "enc \<noteq> []"
    and amp: "CHR ''&'' \<notin> set enc"
    and r: "r = [] \<or> (\<exists>r'. r = CHR ''&'' # r')"
  shows "\<exists>rest. parse_qsl (''uddg='' @ enc @ r) = (''uddg'', unquote_plus enc) # rest"
proof -
  have noamp: "CHR ''&'' \<notin> set (''uddg='' @ enc)" using amp by simp
  have field: "parse_field (''uddg='' @ enc) = [(''uddg'', unquote_plus enc)]"
    using ne by (simp add: parse_field_def unquote_plus_uddg)
  from r show ?thesis
  proof
    assume "r = []"
    then show ?thesis
      using split_no_sep[OF noamp] field by (simp add: parse_qsl_fields)
  next
    assume "\<exists>r'. r = CHR ''&'' # r'"
    then obtain r' where r': "r = CHR ''&'' # r'" by blast
    have "parse_qsl ((''uddg='' @ enc) @ CHR ''&'' # r') = parse_qsl (''uddg='' @ enc) @ parse_qsl r'"
      by (rule parse_qsl_append)
    moreover have "parse_qsl (''uddg='' @ enc) = [(''uddg'', unquote_plus enc)]"
      using split_no_sep[OF noamp] field by (simp add: parse_qsl_fields)
    ultimately show ?thesis using r' by simp
  qed
qed

lemma urlparse_query_redirect:
  "urlparse_query (redirect_prefix @ v) = Inr (takeWhile (\<lambda>c. c \<noteq> CHR ''#'') (remove_unsafe v))"
  by (simp add: urlparse_query_def redirect_prefix_def drop_scheme_def ascii_alpha_def Let_def
      remove_unsafe_def)

lemma startswith_append: "startswith (p @ v) p"
  by (simp add: startswith_def)

lemma remove_unsafe_append: "remove_unsafe (a @ b) = remove_unsafe a @ remove_unsafe b"
  by (simp add: remove_unsafe_def)

lemma resolve_redirect_encoded:
  assumes enc: "url_encodes enc d" and ne: "d \<noteq> []" and valid: "valid_utf8 d"
    and hash: "CHR ''#'' \<notin> set pre"
    and pre: "remove_unsafe pre = [] \<or> last (remove_unsafe pre) = CHR ''&''"
    and first: "''uddg'' \<notin> fst ` set (parse_qsl (remove_unsafe pre))"
    and post: "remove_unsafe post = [] \<or> hd (remove_unsafe post) = CHR ''&''
               \<or> hd (remove_unsafe post) = CHR ''#''"
  shows "resolve_redirect (redirect_prefix @ pre @ ''uddg='' @ enc @ post) = d"
proof -
  let ?pre = "remove_unsafe pre"
  let ?post = "remove_unsafe post"
  let ?r = "takeWhile (\<lambda>c. c \<noteq> CHR ''#'') ?post"
  note plain = url_encodes_plain[OF enc]
  have dec: "unquote_plus enc = d" by (rule unquote_encoded[OF enc valid])
  have ene: "enc \<noteq> []" using enc ne by (cases enc) auto
  have f: "remove_unsafe enc = enc" unfolding remove_unsafe_def using plain by (induction enc) auto
  have t: "takeWhile (\<lambda>c. c \<noteq> CHR ''#'') (enc @ w) = enc @ takeWhile (\<lambda>c. c \<noteq> CHR ''#'') w" for w
    using plain by (induction enc) auto
  have tp: "takeWhile (\<lambda>c. c \<noteq> CHR ''#'') (?pre @ w) = ?pre @ takeWhile (\<lambda>c. c \<noteq> CHR ''#'') w" for w
  proof -
    have "CHR ''#'' \<notin> set ?pre" using hash by (simp add: remove_unsafe_def)
    then show ?thesis by (induction ?pre) (auto simp: takeWhile_append)
  qed
  have u: "remove_unsafe ''uddg='' = ''uddg=''" by (simp add: remove_unsafe_def)
  have q: "urlparse_query (redirect_prefix @ pre @ ''uddg='' @ enc @ post)
           = Inr (?pre @ ''uddg='' @ enc @ ?r)"
    unfolding urlparse_query_redirect remove_unsafe_append f u tp
    using t by simp
  have r: "?r = [] \<or> (\<exists>r'. ?r = CHR ''&'' # r')"
    using post by (cases ?post) auto
  have amp: "CHR ''&'' \<notin> set enc" using plain by auto
  from parse_qsl_uddg[OF ene amp r] obtain rest where
    field: "parse_qsl (''uddg='' @ enc @ ?r) = (''uddg'', d) # rest" using dec by auto
  have look: "map_of (parse_qsl (?pre @ ''uddg='' @ enc @ ?r)) ''uddg'' = Some d"
  proof (cases "?pre = []")
    case True
    then show ?thesis using field by simp
  next
    case False
    with pre obtain p where p: "?pre = p @ [CHR ''&'']"
      by (metis append_butlast_last_id)
    have a: "parse_qsl (?pre @ ''uddg='' @ enc @ ?r)
             = parse_qsl p @ parse_qsl (''uddg='' @ enc @ ?r)"
      using parse_qsl_append[of p "''uddg='' @ enc @ ?r"] p by simp
    have "parse_qsl ?pre = parse_qsl p @ parse_qsl []"
      using parse_qsl_append[of p "[]"] p by simp
    then have "parse_qsl ?pre = parse_qsl p" by (simp add: parse_qsl_def)
    with first have "map_of (parse_qsl p) ''uddg'' = None"
      by (simp add: map_of_eq_None_iff)
    then show ?thesis using a field by (simp add: map_add_def)
  qed
  show ?thesis
    using q look ne startswith_append[of redirect_prefix]
    by (simp add: resolve_redirect_def qs_first_def)
qed

lemma resolve_redirect_missing:
  assumes "\<And>q. urlparse_query u = Inr q \<Longrightarrow> ''uddg'' \<notin> fst ` set (parse_qsl q)"
  shows "resolve_redirect u = u"
proof (cases "urlparse_query u")
  case (Inl e) then show ?thesis by (simp add: resolve_redirect_def)
next
  case (Inr q)
  with assms have "map_of (parse_qsl q) ''uddg'' = None" by (simp add: map_of_eq_None_iff)
  with Inr show ?thesis by (simp add: resolve_redirect_def qs_first_def)
qed


text \<open>
  C5, as amended. A redirect-wrapper link whose query holds, as its first \<open>uddg\<close>
  parameter, a URL-encoding of a non-empty destination resolves to exactly that
  destination: wherever the parameter stands in the query, whichever bytes of the
  destination are percent-escaped, in hexadecimal digits of either case, and whether the
  destination is ASCII or not. A link whose query records no \<open>uddg\<close> value (none, or a
  blank one) keeps its raw URL; and a container with a title anchor always yields a stub,
  whose url is the resolved \<open>href\<close>. Nothing is promised for a malformed escape: the
  library decodes leniently and the decoded value is substituted.
\<close>

theorem redirect_resolution:
  "(url_encodes enc d \<and> d \<noteq> [] \<and> valid_utf8 d
      \<and> CHR ''#'' \<notin> set pre
      \<and> (remove_unsafe pre = [] \<or> last (remove_unsafe pre) = CHR ''&'')
      \<and> ''uddg'' \<notin> fst ` set (parse_qsl (remove_unsafe pre))
      \<and> (remove_unsafe post = [] \<or> hd (remove_unsafe post) = CHR ''&''
           \<or> hd (remove_unsafe post) = CHR ''#'')
      \<longrightarrow> resolve_redirect (redirect_prefix @ pre @ ''uddg='' @ enc @ post) = d)
   \<and> ((\<forall>q. urlparse_query u = Inr q \<longrightarrow> ''uddg'' \<notin> fst ` set (parse_qsl q))
      \<longrightarrow> resolve_redirect u = u)
   \<and> (find_first (named_class ''a'' ''result__a'') c = Some a
      \<longrightarrow> (\<exists>s. parse_result c = Some s \<and> url s = resolve_redirect (get_attr a ''href'' [])))"
proof (intro conjI impI)
  assume "url_encodes enc d \<and> d \<noteq> [] \<and> valid_utf8 d
      \<and> CHR ''#'' \<notin> set pre
      \<and> (remove_unsafe pre = [] \<or> last (remove_unsafe pre) = CHR ''&'')
      \<and> ''uddg'' \<notin> fst ` set (parse_qsl (remove_unsafe pre))
      \<and> (remove_unsafe post = [] \<or> hd (remove_unsafe post) = CHR ''&''
           \<or> hd (remove_unsafe post) = CHR ''#'')"
  then show "resolve_redirect (redirect_prefix @ pre @ ''uddg='' @ enc @ post) = d"
    using resolve_redirect_encoded by blast
next
  assume "\<forall>q. urlparse_query u = Inr q \<longrightarrow> ''uddg'' \<notin> fst ` set (parse_qsl q)"
  then show "resolve_redirect u = u" using resolve_redirect_missing by blast
next
  assume "find_first (named_class ''a'' ''result__a'') c = Some a"
  then show "\<exists>s. parse_result c = Some s \<and> url s = resolve_redirect (get_attr a ''href'' [])"
    by (simp add: parse_result_def)
qed

theorem redirect_resolution_witness:
  "resolve_redirect ''//duckduckgo.com/l/?kh=-1&uddg=https%3a%2F%2Fexample.com/caf%C3%A9%3Fq=a+b&rut=abc''
     = ''https://example.com/caf'' @ [CHR 0xC3, CHR 0xA9] @ ''?q=a b''
   \<and> resolve_redirect ''//duckduckgo.com/l/?kh=1&uddg='' = ''//duckduckgo.com/l/?kh=1&uddg=''
   \<and> map url (search mixed_web ''rust'' 2) = [resolve_redirect ''https://a.example/'']"
proof -
  let ?d = "''https://example.com/caf'' @ [CHR 0xC3, CHR 0xA9] @ ''?q=a b''"
  let ?enc = "''https%3a%2F%2Fexample.com/caf%C3%A9%3Fq=a+b''"
  let ?pre = "''kh=-1&''"
  let ?post = "''&rut=abc''"
  let ?u = "''//duckduckgo.com/l/?kh=1&uddg=''"
  let ?c = "result_div [title_anchor ''https://a.example/'' ''A'', snippet_anchor ''about a'']"
  let ?a = "title_anchor ''https://a.example/'' ''A''"
  note inst = redirect_resolution [of ?enc ?d ?pre ?post ?u ?c ?a]
  have e: "url_encodes ?enc ?d" by code_simp
  have v: "valid_utf8 ?d" by code_simp
  have p: "CHR ''#'' \<notin> set ?pre" by simp
  have p1: "remove_unsafe ?pre = [] \<or> last (remove_unsafe ?pre) = CHR ''&''" by code_simp
  have p2: "parse_qsl (remove_unsafe ?pre) = [(''kh'', ''-1'')]" by code_simp
  have p3: "remove_unsafe ?post = [] \<or> hd (remove_unsafe ?post) = CHR ''&''
           \<or> hd (remove_unsafe ?post) = CHR ''#''" by code_simp
  have h1: "url_encodes ?enc ?d \<and> ?d \<noteq> [] \<and> valid_utf8 ?d
      \<and> CHR ''#'' \<notin> set ?pre
      \<and> (remove_unsafe ?pre = [] \<or> last (remove_unsafe ?pre) = CHR ''&'')
      \<and> ''uddg'' \<notin> fst ` set (parse_qsl (remove_unsafe ?pre))
      \<and> (remove_unsafe ?post = [] \<or> hd (remove_unsafe ?post) = CHR ''&''
           \<or> hd (remove_unsafe ?post) = CHR ''#'')"
    using e v p p1 p3 by (simp add: p2)
  have q: "redirect_prefix @ ?pre @ ''uddg='' @ ?enc @ ?post
           = ''//duckduckgo.com/l/?kh=-1&uddg=https%3a%2F%2Fexample.com/caf%C3%A9%3Fq=a+b&rut=abc''"
    by (simp add: redirect_prefix_def)
  have c1: "resolve_redirect ''//duckduckgo.com/l/?kh=-1&uddg=https%3a%2F%2Fexample.com/caf%C3%A9%3Fq=a+b&rut=abc'' = ?d"
  proof -
    from inst h1 have "resolve_redirect (redirect_prefix @ ?pre @ ''uddg='' @ ?enc @ ?post) = ?d"
      by blast
    then show ?thesis by (simp only: q)
  qed
  have uq: "urlparse_query ?u = Inr ''kh=1&uddg=''" by code_simp
  have pq: "parse_qsl ''kh=1&uddg='' = [(''kh'', ''1'')]" by code_simp
  have h2: "\<forall>q. urlparse_query ?u = Inr q \<longrightarrow> ''uddg'' \<notin> fst ` set (parse_qsl q)"
    using uq pq by simp
  have c2: "resolve_redirect ?u = ?u" using inst h2 by blast
  have h3: "find_first (named_class ''a'' ''result__a'') ?c = Some ?a" by code_simp
  from inst h3 obtain s where s: "parse_result ?c = Some s"
      "url s = resolve_redirect (get_attr ?a ''href'' [])" by blast
  have g: "get_attr ?a ''href'' [] = ''https://a.example/''" by code_simp
  have sr: "search mixed_web ''rust'' 2 = [the (parse_result ?c)]" by code_simp
  have c3: "map url (search mixed_web ''rust'' 2) = [resolve_redirect ''https://a.example/'']"
    using s g sr by simp
  show ?thesis using c1 c2 c3 by blast
qed

text \<open>
  C5 as stated fails for a malformed destination: \<open>parse_qs\<close> leaves an invalid escape as it
  is and raises nothing, so the value \<open>%zz\<close> replaces the raw URL.
\<close>

theorem redirect_resolution_counterexample:
  "resolve_redirect ''//duckduckgo.com/l/?uddg=%zz'' \<noteq> ''//duckduckgo.com/l/?uddg=%zz''"
  by code_simp

subsection \<open>The research loop\<close>

lemma extract_loop_eq:
  "extract_loop fetch rs (acc, log) =
     (acc @ List.map_filter (\<lambda>r. map_option (\<lambda>c. \<lparr>title = title r, url = url r, snippet = snippet r, extracted = Some c\<rparr>) (fetch (url r))) rs,
      log @ map url rs)"
  by (induction rs arbitrary: acc log) (auto simp: List.map_filter_simps split: option.splits)

lemma research_topic_eq:
  "research_topic web handle q m =
     (Topic q (List.map_filter (\<lambda>r. map_option (\<lambda>c. \<lparr>title = title r, url = url r, snippet = snippet r, extracted = Some c\<rparr>) (fetch_content web handle (url r))) (search web q m)),
      map url (search web q m))"
  by (simp add: research_topic_def Let_def extract_loop_eq List.map_filter_simps)

lemma map_filter_stub:
  "map stub_of (List.map_filter (\<lambda>r. map_option (\<lambda>c. \<lparr>title = title r, url = url r, snippet = snippet r, extracted = Some c\<rparr>) (f (url r))) rs)
   = filter (\<lambda>s. f (url s) \<noteq> None) rs"
  by (induction rs) (auto simp: List.map_filter_simps stub_of_def)

lemma map_filter_extracted':
  "r \<in> set (List.map_filter (\<lambda>r. map_option (\<lambda>c. \<lparr>title = title r, url = url r, snippet = snippet r, extracted = Some c\<rparr>) (f (url r))) rs)
   \<Longrightarrow> \<exists>c. f (url r) = Some c \<and> extracted r = Some c"
  by (induction rs) (auto simp: List.map_filter_simps split: option.splits)

lemma map_filter_extracted:
  assumes "r \<in> set (List.map_filter (\<lambda>r. map_option (\<lambda>c. \<lparr>title = title r, url = url r, snippet = snippet r, extracted = Some c\<rparr>) (f (url r))) rs)"
  shows "extracted r = f (url r) \<and> extracted r \<noteq> None"
  using map_filter_extracted'[OF assms] by auto

text \<open>
  C1, as amended. The results of \<open>research_topic\<close> are exactly the stubs whose fetch and
  extraction succeeded, in their rank order, and each of them carries its extracted
  content; a stub whose fetch or extraction fails is left out of the results.
\<close>

theorem topic_results_extracted:
  "map stub_of (topic_results (fst (research_topic web handle q m)))
     = filter (\<lambda>s. fetch_content web handle (url s) \<noteq> None) (search web q m)
   \<and> (\<forall>r\<in>set (topic_results (fst (research_topic web handle q m))).
         extracted r = fetch_content web handle (url r) \<and> extracted r \<noteq> None)"
proof (rule conjI)
  show "map stub_of (topic_results (fst (research_topic web handle q m)))
     = filter (\<lambda>s. fetch_content web handle (url s) \<noteq> None) (search web q m)"
    by (simp add: research_topic_eq map_filter_stub)
next
  show "\<forall>r\<in>set (topic_results (fst (research_topic web handle q m))).
         extracted r = fetch_content web handle (url r) \<and> extracted r \<noteq> None"
  proof (rule ballI)
    fix r assume "r \<in> set (topic_results (fst (research_topic web handle q m)))"
    then have "r \<in> set (List.map_filter (\<lambda>r. map_option (\<lambda>c. \<lparr>title = title r, url = url r, snippet = snippet r, extracted = Some c\<rparr>) (fetch_content web handle (url r))) (search web q m))"
      by (simp add: research_topic_eq)
    then show "extracted r = fetch_content web handle (url r) \<and> extracted r \<noteq> None"
      by (rule map_filter_extracted)
  qed
qed

theorem topic_results_extracted_witness:
  "map stub_of (topic_results (fst (research_topic topic_web sample_handle ''rust ownership'' 3)))
     = [\<lparr> title = ''A'', url = ''https://a.example/'', snippet = ''about a'' \<rparr>,
        \<lparr> title = ''C'', url = ''https://c.example/'', snippet = ''about c'' \<rparr>]"
proof -
  have f: "filter (\<lambda>s. fetch_content topic_web sample_handle (url s) \<noteq> None)
             (search topic_web ''rust ownership'' 3)
           = [\<lparr> title = ''A'', url = ''https://a.example/'', snippet = ''about a'' \<rparr>,
              \<lparr> title = ''C'', url = ''https://c.example/'', snippet = ''about c'' \<rparr>]"
    by code_simp
  show ?thesis
    using topic_results_extracted [of topic_web sample_handle "''rust ownership''" 3] f
    by simp
qed

text \<open>
  C1 as stated fails: when the second of three result pages cannot be fetched, the
  document holds the first and the third stub only.
\<close>

theorem failed_stub_counterexample:
  "fetch_content topic_web sample_handle ''https://b.example/'' = None
   \<and> map url (search topic_web ''rust ownership'' 3)
       = [''https://a.example/'', ''https://b.example/'', ''https://c.example/'']
   \<and> map url (topic_results (fst (research_topic topic_web sample_handle ''rust ownership'' 3)))
       = [''https://a.example/'', ''https://c.example/'']"
  by code_simp

lemma resolve_redirect_other: "\<not> startswith h redirect_prefix \<Longrightarrow> resolve_redirect h = h"
  by (simp add: resolve_redirect_def)

lemma url_map_filter:
  "map url (List.map_filter parse_result cs)
   = map (\<lambda>a. resolve_redirect (get_attr a ''href'' []))
       (List.map_filter (find_first (named_class ''a'' ''result__a'')) cs)"
  by (induction cs) (auto simp: List.map_filter_simps parse_result_def split: option.splits)

lemma resolve_redirect_wrapper:
  assumes "startswith h redirect_prefix"
  shows "resolve_redirect h =
           (let v = qs_first ''uddg''
                      (takeWhile (\<lambda>c. c \<noteq> CHR ''#'')
                         (remove_unsafe (drop (length redirect_prefix) h)))
            in if v \<noteq> [] then v else h)"
proof -
  from assms have h: "h = redirect_prefix @ drop (length redirect_prefix) h"
    unfolding startswith_def by (metis append_take_drop_id)
  have "urlparse_query h
        = Inr (takeWhile (\<lambda>c. c \<noteq> CHR ''#'') (remove_unsafe (drop (length redirect_prefix) h)))"
    by (subst h) (rule urlparse_query_redirect)
  then show ?thesis using assms by (simp add: resolve_redirect_def Let_def)
qed

text \<open>
  C9, as amended. The URLs handed to \<open>fetch_content\<close> are the url fields of the stubs of
  the parser, unchanged and in rank order. When the results page \<open>soup\<close> was fetched they
  are, in document order, the resolved \<open>href\<close> of the first title anchor of each of the
  first \<open>m\<close> result containers of \<open>soup\<close> that has one; when the request failed there are
  none. Resolving leaves an \<open>href\<close> that is not a redirect-wrapper link as it is, and
  turns a redirect-wrapper link into the decoded first non-blank \<open>uddg\<close> value of its
  query, or leaves it as it is when there is no such value. Nothing makes the result
  absolute.
\<close>

theorem fetched_urls:
  "snd (research_topic web handle q m) = map url (search web q m)
   \<and> (web (search_url q) = Inr soup \<longrightarrow>
        map url (search web q m)
          = map (\<lambda>a. resolve_redirect (get_attr a ''href'' []))
              (List.map_filter (find_first (named_class ''a'' ''result__a''))
                 (slice_to m (result_containers soup))))
   \<and> (web (search_url q) = Inl e \<longrightarrow> search web q m = [])
   \<and> (\<not> startswith h redirect_prefix \<longrightarrow> resolve_redirect h = h)
   \<and> (startswith h redirect_prefix \<longrightarrow>
        resolve_redirect h =
          (let v = qs_first ''uddg''
                     (takeWhile (\<lambda>c. c \<noteq> CHR ''#'')
                        (remove_unsafe (drop (length redirect_prefix) h)))
           in if v \<noteq> [] then v else h))"
proof (intro conjI impI)
  show "snd (research_topic web handle q m) = map url (search web q m)"
    by (simp add: research_topic_eq)
next
  assume "web (search_url q) = Inr soup"
  then show "map url (search web q m)
          = map (\<lambda>a. resolve_redirect (get_attr a ''href'' []))
              (List.map_filter (find_first (named_class ''a'' ''result__a''))
                 (slice_to m (result_containers soup)))"
    by (simp add: search_page url_map_filter)
next
  assume "web (search_url q) = Inl e"
  then show "search web q m = []" by (simp add: search_def)
next
  assume "\<not> startswith h redirect_prefix"
  then show "resolve_redirect h = h" by (rule resolve_redirect_other)
next
  assume "startswith h redirect_prefix"
  then show "resolve_redirect h =
          (let v = qs_first ''uddg''
                     (takeWhile (\<lambda>c. c \<noteq> CHR ''#'')
                        (remove_unsafe (drop (length redirect_prefix) h)))
           in if v \<noteq> [] then v else h)"
    by (rule resolve_redirect_wrapper)
qed

theorem fetched_urls_witness:
  "snd (research_topic wrapped_web sample_handle ''rust'' 3)
     = map url (search wrapped_web ''rust'' 3)
   \<and> map url (search wrapped_web ''rust'' 3)
       = map (\<lambda>a. resolve_redirect (get_attr a ''href'' []))
           (List.map_filter (find_first (named_class ''a'' ''result__a''))
              (slice_to 3 (result_containers wrapped_page)))
   \<and> map url (search wrapped_web ''rust'' 3) = [''https://a.example/caf'' @ [CHR 0xC3, CHR 0xA9], ''/about'']
   \<and> search down_web ''rust'' 3 = []
   \<and> resolve_redirect ''/about'' = ''/about''
   \<and> resolve_redirect ''//duckduckgo.com/l/?kh=1&uddg=https%3A%2F%2Fa.example%2Fcaf%C3%A9&rut=2''
       = ''https://a.example/caf'' @ [CHR 0xC3, CHR 0xA9]"
proof -
  let ?w = "''//duckduckgo.com/l/?kh=1&uddg=https%3A%2F%2Fa.example%2Fcaf%C3%A9&rut=2''"
  have page: "wrapped_web (search_url ''rust'') = Inr wrapped_page" by code_simp
  have down: "down_web (search_url ''rust'') = Inl RequestException" by (simp add: down_web_def)
  have plain: "\<not> startswith ''/about'' redirect_prefix" by code_simp
  have wrapper: "startswith ?w redirect_prefix" by code_simp
  have urls: "map url (search wrapped_web ''rust'' 3)
                = [''https://a.example/caf'' @ [CHR 0xC3, CHR 0xA9], ''/about'']"
    by code_simp
  have v: "(let v = qs_first ''uddg''
                     (takeWhile (\<lambda>c. c \<noteq> CHR ''#'')
                        (remove_unsafe (drop (length redirect_prefix) ?w)))
           in if v \<noteq> [] then v else ?w) = ''https://a.example/caf'' @ [CHR 0xC3, CHR 0xA9]"
    by code_simp
  note one = fetched_urls [where web = wrapped_web and handle = sample_handle and q = "''rust''"
      and m = 3 and soup = wrapped_page and e = RequestException and h = "''/about''"]
  note two = fetched_urls [where web = down_web and handle = sample_handle and q = "''rust''"
      and m = 3 and soup = wrapped_page and e = RequestException and h = ?w]
  have a: "snd (research_topic wrapped_web sample_handle ''rust'' 3)
             = map url (search wrapped_web ''rust'' 3)"
    using one by blast
  have b: "map url (search wrapped_web ''rust'' 3)
       = map (\<lambda>a. resolve_redirect (get_attr a ''href'' []))
           (List.map_filter (find_first (named_class ''a'' ''result__a''))
              (slice_to 3 (result_containers wrapped_page)))"
    using one page by blast
  have c: "search down_web ''rust'' 3 = []" using two down by blast
  have d: "resolve_redirect ''/about'' = ''/about''" using one plain by blast
  have e: "resolve_redirect ?w = ''https://a.example/caf'' @ [CHR 0xC3, CHR 0xA9]"
    using two wrapper v by metis
  from a b c d e urls show ?thesis by blast
qed

text \<open>
  C9 as stated fails: a redirect link without destination parameter and a relative link
  are handed to \<open>fetch_content\<close> as they are.
\<close>

theorem fetched_urls_counterexample:
  "snd (research_topic indirect_web sample_handle ''rust'' 5) = [''//duckduckgo.com/l/?kh=1'', ''/about'']
   \<and> startswith ''//duckduckgo.com/l/?kh=1'' redirect_prefix
   \<and> \<not> is_absolute_url ''//duckduckgo.com/l/?kh=1''
   \<and> \<not> is_absolute_url ''/about''"
  by code_simp

subsection \<open>Markdown output\<close>

lemma str_len_str_take: "n \<le> str_len s \<Longrightarrow> str_len (str_take n s) = n"
  by (induction s arbitrary: n) (auto simp: str_len_def split: nat.splits)

lemma str_take_prefix: "take (length (str_take n s)) s = str_take n s"
  by (induction s arbitrary: n) (auto split: nat.splits)

lemma markdown_results_append:
  "markdown_results k (xs @ ys) = markdown_results k xs @ markdown_results (k + length xs) ys"
  by (induction xs arbitrary: k) auto

text \<open>
  C6. In the markdown of a topic document, the result at position \<open>i\<close> that has extracted
  content is laid out as heading, URL, summary, content heading, body and rule, and the
  body is the first 5000 characters of the markdown followed by the truncation marker
  when the markdown is longer than 5000 characters, the markdown itself otherwise
  (characters as \<open>len\<close> and slicing count them). The markdown of a single page ends with
  the whole markdown body.
\<close>

theorem markdown_truncation:
  "(i < length rs \<and> extracted (rs ! i) = Some e \<longrightarrow>
      format_markdown (Topic q rs) =
        join ''\<newline>''
          ([''# Research: '' @ q @ ''\<newline>'',
            ''*Generated by Research Agent*\<newline>'',
            ''*Found '' @ str_nat (length rs) @ '' results*\<newline>'',
            ''---\<newline>'']
           @ markdown_results 1 (take i rs)
           @ [''## '' @ str_nat (i + 1) @ ''. '' @ title (rs ! i) @ ''\<newline>'',
              ''**URL:** '' @ url (rs ! i) @ ''\<newline>'',
              ''**Summary:** '' @ snippet (rs ! i) @ ''\<newline>'',
              ''\<newline>### Content\<newline>'',
              (if 5000 < str_len (content e)
               then str_take 5000 (content e) @ ''\<newline>\<newline>*[Content truncated...]*''
               else content e),
              ''\<newline>---\<newline>'']
           @ markdown_results (i + 2) (drop (Suc i) rs)))
   \<and> format_markdown (Single p) =
        ''# '' @ page_title p @ ''\<newline>\<newline>**URL:** '' @ page_url p
          @ ''\<newline>\<newline>\<newline>---\<newline>\<newline>'' @ content p"
proof (intro conjI impI)
  assume a: "i < length rs \<and> extracted (rs ! i) = Some e"
  then have rs: "rs = take i rs @ (rs ! i) # drop (Suc i) rs"
    by (simp add: id_take_nth_drop)
  have l: "length (take i rs) = i" using a by simp
  have "markdown_results 1 rs
        = markdown_results 1 (take i rs) @ markdown_result (1 + i) (rs ! i)
          @ markdown_results (Suc (1 + i)) (drop (Suc i) rs)"
    by (subst rs) (simp only: markdown_results_append l markdown_results.simps)
  then show "format_markdown (Topic q rs) =
        join ''\<newline>''
          ([''# Research: '' @ q @ ''\<newline>'',
            ''*Generated by Research Agent*\<newline>'',
            ''*Found '' @ str_nat (length rs) @ '' results*\<newline>'',
            ''---\<newline>'']
           @ markdown_results 1 (take i rs)
           @ [''## '' @ str_nat (i + 1) @ ''. '' @ title (rs ! i) @ ''\<newline>'',
              ''**URL:** '' @ url (rs ! i) @ ''\<newline>'',
              ''**Summary:** '' @ snippet (rs ! i) @ ''\<newline>'',
              ''\<newline>### Content\<newline>'',
              (if 5000 < str_len (content e)
               then str_take 5000 (content e) @ ''\<newline>\<newline>*[Content truncated...]*''
               else content e),
              ''\<newline>---\<newline>'']
           @ markdown_results (i + 2) (drop (Suc i) rs))"
    using a by (simp add: markdown_result_def truncate_content_def truncation_marker_def)
next
  show "format_markdown (Single p) =
        ''# '' @ page_title p @ ''\<newline>\<newline>**URL:** '' @ page_url p
          @ ''\<newline>\<newline>\<newline>---\<newline>\<newline>'' @ content p"
    by simp
qed


lemma str_len_plain: "\<forall>c\<in>set s. \<not> continuation c \<Longrightarrow> str_len s = length s"
  by (induction s) (simp_all add: str_len_def)

lemma str_take_plain: "\<forall>c\<in>set s. \<not> continuation c \<Longrightarrow> str_take n s = take n s"
  by (induction s arbitrary: n) (auto split: nat.splits)

lemma plain_x: "\<not> continuation CHR ''x''"
  by (simp add: continuation_def)

theorem markdown_truncation_witness:
  "format_markdown (Topic ''q'' [body_result (replicate 6000 CHR ''x'')]) =
     join ''\<newline>''
       [''# Research: q\<newline>'',
        ''*Generated by Research Agent*\<newline>'',
        ''*Found 1 results*\<newline>'',
        ''---\<newline>'',
        ''## 1. A\<newline>'',
        ''**URL:** https://a.example/\<newline>'',
        ''**Summary:** about a\<newline>'',
        ''\<newline>### Content\<newline>'',
        replicate 5000 CHR ''x'' @ ''\<newline>\<newline>*[Content truncated...]*'',
        ''\<newline>---\<newline>'']
   \<and> format_markdown (Topic ''q'' [body_result (replicate 4000 CHR ''x'')]) =
     join ''\<newline>''
       [''# Research: q\<newline>'',
        ''*Generated by Research Agent*\<newline>'',
        ''*Found 1 results*\<newline>'',
        ''---\<newline>'',
        ''## 1. A\<newline>'',
        ''**URL:** https://a.example/\<newline>'',
        ''**Summary:** about a\<newline>'',
        ''\<newline>### Content\<newline>'',
        replicate 4000 CHR ''x'',
        ''\<newline>---\<newline>'']"
proof -
  have n: "str_nat 1 = ''1''" "str_nat (Suc 0) = ''1''" by code_simp+
  have e: "extracted (body_result c) =
             Some \<lparr> page_title = ''A'', page_url = ''https://a.example/'',
                     content = c, plain_text = c \<rparr>" for c
    by (simp add: body_result_def)
  have f: "title (body_result c) = ''A''" "url (body_result c) = ''https://a.example/''"
      "snippet (body_result c) = ''about a''" for c
    by (simp_all add: body_result_def)
  have h: "0 < length [body_result c] \<and> extracted ([body_result c] ! 0) =
             Some \<lparr> page_title = ''A'', page_url = ''https://a.example/'',
                     content = c, plain_text = c \<rparr>" for c
    using e by simp
  have long: "format_markdown (Topic ''q'' [body_result (replicate 6000 CHR ''x'')]) =
     join ''\<newline>''
       [''# Research: q\<newline>'',
        ''*Generated by Research Agent*\<newline>'',
        ''*Found 1 results*\<newline>'',
        ''---\<newline>'',
        ''## 1. A\<newline>'',
        ''**URL:** https://a.example/\<newline>'',
        ''**Summary:** about a\<newline>'',
        ''\<newline>### Content\<newline>'',
        replicate 5000 CHR ''x'' @ ''\<newline>\<newline>*[Content truncated...]*'',
        ''\<newline>---\<newline>'']"
    using markdown_truncation [of 0 "[body_result (replicate 6000 CHR ''x'')]"
        "\<lparr> page_title = ''A'', page_url = ''https://a.example/'',
           content = replicate 6000 CHR ''x'', plain_text = replicate 6000 CHR ''x'' \<rparr>" "''q''"]
      h [of "replicate 6000 CHR ''x''"]
    by (simp add: n f str_len_plain str_take_plain plain_x del: format_markdown.simps)
  have short: "format_markdown (Topic ''q'' [body_result (replicate 4000 CHR ''x'')]) =
     join ''\<newline>''
       [''# Research: q\<newline>'',
        ''*Generated by Research Agent*\<newline>'',
        ''*Found 1 results*\<newline>'',
        ''---\<newline>'',
        ''## 1. A\<newline>'',
        ''**URL:** https://a.example/\<newline>'',
        ''**Summary:** about a\<newline>'',
        ''\<newline>### Content\<newline>'',
        replicate 4000 CHR ''x'',
        ''\<newline>---\<newline>'']"
    using markdown_truncation [of 0 "[body_result (replicate 4000 CHR ''x'')]"
        "\<lparr> page_title = ''A'', page_url = ''https://a.example/'',
           content = replicate 4000 CHR ''x'', plain_text = replicate 4000 CHR ''x'' \<rparr>" "''q''"]
      h [of "replicate 4000 CHR ''x''"]
    by (simp add: n f str_len_plain str_take_plain plain_x del: format_markdown.simps)
  show ?thesis using long short by (rule conjI)
qed

subsection \<open>Content extraction\<close>

lemma find_first_Some: "find_first p n = Some m \<Longrightarrow> m \<in> set (descendants n) \<and> p m"
  unfolding find_first_def by (auto simp: find_Some_iff)

lemma find_first_None: "find_first p n = None \<longleftrightarrow> \<not> list_ex p (descendants n)"
  unfolding find_first_def by (auto simp: find_None_iff list_ex_iff)

lemma named_decompose: "named ts' (decompose_all ts n) = named ts' n"
  by (cases n) auto

lemma descendants_decompose_not_named:
  "e \<in> set (descendants (decompose_all ts n)) \<Longrightarrow> \<not> named ts e"
proof (induction n arbitrary: e)
  case (Text s) then show ?case by simp
next
  case (Element t cl at cs)
  from Element.prems obtain c where c: "c \<in> set cs" "\<not> named ts c"
      and e: "e = decompose_all ts c \<or> e \<in> set (descendants (decompose_all ts c))"
    by auto
  from e show ?case
  proof
    assume "e = decompose_all ts c"
    with c show ?thesis by (simp add: named_decompose)
  next
    assume "e \<in> set (descendants (decompose_all ts c))"
    with Element.IH c show ?thesis by blast
  qed
qed

lemma descendants_decompose:
  "descendants (decompose_all ts n) = map (decompose_all ts) (outside_descendants ts n)"
proof (induction n)
  case (Text s)
  then show ?case by simp
next
  case (Element t cl at cs)
  have "concat (map (\<lambda>c. c # descendants c) (map (decompose_all ts) (filter (\<lambda>c. \<not> named ts c) xs)))
        = map (decompose_all ts)
            (concat (map (\<lambda>c. if named ts c then [] else c # outside_descendants ts c) xs))"
    if "set xs \<subseteq> set cs" for xs
    using that
  proof (induction xs)
    case Nil
    then show ?case by simp
  next
    case (Cons x xs)
    then have "x \<in> set cs" by simp
    from Element.IH[OF this] Cons show ?case by simp
  qed
  then show ?case by simp
qed

lemma strings_outside_named: "named ts n \<Longrightarrow> strings_outside ts n = []"
  by (cases n) auto

lemma concat_map_filter_nil:
  "(\<And>x. x \<in> set xs \<Longrightarrow> \<not> P x \<Longrightarrow> f x = []) \<Longrightarrow> concat (map f (filter P xs)) = concat (map f xs)"
  by (induction xs) auto

lemma all_strings_decompose:
  "\<not> named ts n \<Longrightarrow> all_strings (decompose_all ts n) = strings_outside ts n"
proof (induction n)
  case (Text s) then show ?case by simp
next
  case (Element t cl at cs)
  then have t: "t \<notin> set ts" by simp
  have "concat (map (\<lambda>c. all_strings (decompose_all ts c)) (filter (\<lambda>c. \<not> named ts c) cs))
        = concat (map (strings_outside ts) (filter (\<lambda>c. \<not> named ts c) cs))"
    using Element.IH by (intro arg_cong[where f = concat] map_cong) auto
  also have "\<dots> = concat (map (strings_outside ts) cs)"
    by (rule concat_map_filter_nil) (simp add: strings_outside_named)
  finally show ?case using t by (simp add: comp_def)
qed


lemma main_content_Some:
  assumes "main_content n = Some m"
  shows "m \<in> set (descendants n) \<and> named [''main'', ''article'', ''body''] m"
proof -
  from assms obtain t where t: "t \<in> set [''main'', ''article'', ''body'']"
      and f: "find_first (named [t]) n = Some m"
    by (auto simp: main_content_def split: option.splits)
  from find_first_Some[OF f] have "m \<in> set (descendants n)" "named [t] m" by auto
  with t show ?thesis by (cases m) auto
qed

lemma region_not_denied: "named [''main'', ''article'', ''body''] m \<Longrightarrow> \<not> named denylist m"
  by (cases m) (auto simp: denylist_def)

text \<open>
  C3. Whenever \<open>fetch_content\<close> returns a page, the region it rendered is an element \<open>M\<close>
  of the fetched tree that lies outside every element of a denylisted tag, with every
  element of a denylisted tag removed from it; it is the region that \<open>main_content\<close>
  selects in the tree pruned of these elements. The markdown is the converter's output
  on that pruned region, the plain text is made of exactly the strings of \<open>M\<close> that do
  not originate from a denylisted element, and the pruned region holds no denylisted
  element at any depth.
\<close>

theorem denylist_removed:
  assumes "fetch_content web handle u = Some p"
  shows "\<exists>soup M. web u = Inr soup \<and> M \<in> set (outside_descendants denylist soup)
          \<and> main_content (decompose_all denylist soup) = Some (decompose_all denylist M)
          \<and> content p = handle (decompose_all denylist M)
          \<and> plain_text p =
              join ''\<newline>'' (filter (\<lambda>s. s \<noteq> []) (map strip (strings_outside denylist M)))
          \<and> \<not> list_ex (named denylist)
                (decompose_all denylist M # descendants (decompose_all denylist M))"
proof -
  from assms obtain soup where soup: "web u = Inr soup"
    by (cases "web u") (auto simp: fetch_content_def)
  let ?soup' = "decompose_all denylist soup"
  from assms soup obtain m where m: "main_content ?soup' = Some m"
      and p: "content p = handle m" "plain_text p = get_text ''\<newline>'' m"
    by (cases "main_content ?soup'") (auto simp: fetch_content_def Let_def)
  from main_content_Some[OF m] have md: "m \<in> set (descendants ?soup')"
      and mn: "named [''main'', ''article'', ''body''] m" by auto
  from md obtain M where
    M: "M \<in> set (outside_descendants denylist soup)" "m = decompose_all denylist M"
    unfolding descendants_decompose by auto
  have nm: "\<not> named denylist m" using mn by (rule region_not_denied)
  then have nM: "\<not> named denylist M" using M by (simp add: named_decompose)
  have strs: "all_strings m = strings_outside denylist M"
    using all_strings_decompose[OF nM] M by simp
  have sub: "set (descendants m) \<subseteq> set (descendants ?soup')"
  proof -
    have "e \<in> set (descendants n) \<Longrightarrow> set (descendants e) \<subseteq> set (descendants n)" for e n
    proof (induction n)
      case (Text s) then show ?case by simp
    next
      case (Element t cl at cs) then show ?case by fastforce
    qed
    with md show ?thesis by blast
  qed
  have clean: "\<not> list_ex (named denylist) (m # descendants m)"
    using nm sub descendants_decompose_not_named[of _ denylist soup]
    by (auto simp: list_ex_iff)
  show ?thesis
    using soup M m p strs clean by (auto simp: get_text_def)
qed

theorem denylist_removed_witness:
  "fetch_content decoy_web sample_handle ''https://a.example/''
     = Some \<lparr> page_title = ''Ownership'', page_url = ''https://a.example/'',
              content = ''Ownership\<newline> Each value has an owner. '',
              plain_text = ''Ownership\<newline>Each value has an owner.'' \<rparr>
   \<and> (\<exists>soup M. decoy_web ''https://a.example/'' = Inr soup
          \<and> M \<in> set (outside_descendants denylist soup)
          \<and> main_content (decompose_all denylist soup) = Some (decompose_all denylist M)
          \<and> ''Ownership\<newline> Each value has an owner. '' = sample_handle (decompose_all denylist M)
          \<and> ''Ownership\<newline>Each value has an owner.'' =
              join ''\<newline>'' (filter (\<lambda>s. s \<noteq> []) (map strip (strings_outside denylist M)))
          \<and> \<not> list_ex (named denylist)
                (decompose_all denylist M # descendants (decompose_all denylist M)))"
proof -
  have h: "fetch_content decoy_web sample_handle ''https://a.example/''
     = Some \<lparr> page_title = ''Ownership'', page_url = ''https://a.example/'',
              content = ''Ownership\<newline> Each value has an owner. '',
              plain_text = ''Ownership\<newline>Each value has an owner.'' \<rparr>"
    by code_simp
  show ?thesis using h denylist_removed [OF h] by simp
qed

text \<open>
  C4, as amended. The title of a fetched page is the stripped string of the first
  \<open>title\<close> element when the page has one (the empty string when that element holds no
  single string); only a page without \<open>title\<close> element takes the text of its first
  \<open>h1\<close>, or the empty string without one. The title agrees with the specification's
  resolution order whenever the page has no \<open>title\<close> element or the title found is not
  empty.
\<close>

theorem extracted_title:
  assumes "web u = Inr soup" and "fetch_content web handle u = Some p"
  shows "(find_first (named [''title'']) soup = Some t \<longrightarrow> page_title p = title_text t)
       \<and> (find_first (named [''title'']) soup = None \<longrightarrow>
            page_title p = (case find_first (named [''h1'']) soup of
                              Some h1 \<Rightarrow> get_text [] h1 | None \<Rightarrow> []))
       \<and> (find_first (named [''title'']) soup = None \<or> page_title p \<noteq> [] \<longrightarrow>
            page_title p = spec_title soup)"
proof -
  have s: "strip [] = []" by (simp add: strip_def)
  have "page_title p = extract_title soup"
    using assms by (auto simp: fetch_content_def Let_def split: option.splits)
  then show ?thesis
    using s by (auto simp: extract_title_def title_text_def spec_title_def Let_def split: option.splits)
qed

theorem extracted_title_witness:
  "map_option page_title (fetch_content topic_web sample_handle ''https://a.example/'') = Some ''Ownership''
   \<and> spec_title article_page = ''Ownership''
   \<and> map_option page_title (fetch_content heading_web sample_handle ''https://h.example/'') = Some ''Heading''
   \<and> spec_title heading_page = ''Heading''"
proof -
  have w: "topic_web ''https://a.example/'' = Inr article_page" by code_simp
  have h: "fetch_content topic_web sample_handle ''https://a.example/''
     = Some \<lparr> page_title = ''Ownership'', page_url = ''https://a.example/'',
              content = ''Ownership\<newline> Each value has an owner. '',
              plain_text = ''Ownership\<newline>Each value has an owner.'' \<rparr>"
    by code_simp
  have t: "find_first (named [''title'']) article_page
             = Some (Element ''title'' [] [] [Text '' Ownership ''])"
    by code_simp
  have tt: "title_text (Element ''title'' [] [] [Text '' Ownership '']) = ''Ownership''"
    by code_simp
  from extracted_title [OF w h, of "Element ''title'' [] [] [Text '' Ownership '']"] t tt
  have a: "spec_title article_page = ''Ownership''" by simp
  have w': "heading_web ''https://h.example/'' = Inr heading_page" by code_simp
  have h': "fetch_content heading_web sample_handle ''https://h.example/''
     = Some \<lparr> page_title = ''Heading'', page_url = ''https://h.example/'',
              content = '' Heading \<newline>body text'',
              plain_text = ''Heading\<newline>body text'' \<rparr>"
    by code_simp
  have t': "find_first (named [''title'']) heading_page = None" by code_simp
  from extracted_title [OF w' h', of undefined, THEN conjunct2, THEN conjunct2] t'
  have "page_title \<lparr> page_title = ''Heading'', page_url = ''https://h.example/'',
              content = '' Heading \<newline>body text'',
              plain_text = ''Heading\<newline>body text'' \<rparr> = spec_title heading_page"
    by blast
  then have b: "spec_title heading_page = ''Heading''" by simp
  show ?thesis using a b h h' by simp
qed

text \<open>
  C4 as stated fails for a page with an empty \<open>title\<close> element and an \<open>h1\<close>: the title is
  the empty string, not the text of the heading.
\<close>

theorem extracted_title_counterexample:
  "map_option page_title (fetch_content empty_title_web sample_handle ''https://t.example/'') = Some []
   \<and> find_first (named [''h1'']) empty_title_page = Some (Element ''h1'' [] [] [Text ''Heading''])
   \<and> spec_title empty_title_page = ''Heading''"
  by code_simp

text \<open>
  C8, as amended. In the tree left after the denylisted elements are removed, the region
  is the first \<open>main\<close> element when one exists, else the first \<open>article\<close> element when
  one exists, else the first \<open>body\<close> element; extraction returns a page whenever one of
  the three exists and is absent exactly when none does. A region without text is a
  region like any other.
\<close>

theorem region_selection:
  assumes "web u = Inr soup"
  shows "fetch_content web handle u =
           map_option
             (\<lambda>m. \<lparr> page_title = extract_title soup, page_url = u, content = handle m,
                     plain_text = get_text ''\<newline>'' m \<rparr>)
             (case find_first (named [''main'']) (decompose_all denylist soup) of
                Some m \<Rightarrow> Some m
              | None \<Rightarrow>
                  (case find_first (named [''article'']) (decompose_all denylist soup) of
                     Some a \<Rightarrow> Some a
                   | None \<Rightarrow> find_first (named [''body'']) (decompose_all denylist soup)))
       \<and> (fetch_content web handle u = None \<longleftrightarrow>
            \<not> list_ex (named [''main'', ''article'', ''body''])
                (descendants (decompose_all denylist soup)))"
proof -
  let ?s = "decompose_all denylist soup"
  have n: "list_ex (named [''main'', ''article'', ''body'']) ds \<longleftrightarrow>
           list_ex (named [''main'']) ds \<or> list_ex (named [''article'']) ds \<or> list_ex (named [''body'']) ds"
    for ds
  proof -
    have "named [''main'', ''article'', ''body''] e \<longleftrightarrow>
          named [''main''] e \<or> named [''article''] e \<or> named [''body''] e" for e
      by (cases e) auto
    then show ?thesis by (auto simp: list_ex_iff)
  qed
  have a: "fetch_content web handle u =
           map_option
             (\<lambda>m. \<lparr> page_title = extract_title soup, page_url = u, content = handle m,
                     plain_text = get_text ''\<newline>'' m \<rparr>)
             (main_content ?s)"
    using assms by (simp add: fetch_content_def Let_def split: option.splits)
  have b: "main_content ?s = None \<longleftrightarrow> \<not> list_ex (named [''main'', ''article'', ''body'']) (descendants ?s)"
  proof -
    have ex: "find_first q ?s = Some x \<Longrightarrow> list_ex q (descendants ?s)" for q x
      using find_first_None[of q ?s] by simp
    show ?thesis
      unfolding n by (auto simp: main_content_def find_first_None dest: ex split: option.splits)
  qed
  show ?thesis using a b by (simp add: main_content_def)
qed

theorem region_selection_witness:
  "fetch_content topic_web sample_handle ''https://a.example/''
     = Some \<lparr> page_title = ''Ownership'', page_url = ''https://a.example/'',
              content = ''Ownership\<newline> Each value has an owner. '',
              plain_text = ''Ownership\<newline>Each value has an owner.'' \<rparr>
   \<and> list_ex (named [''main'', ''article'', ''body''])
        (descendants (decompose_all denylist article_page))
   \<and> fetch_content blank_web sample_handle ''https://n.example/'' = None"
proof -
  have w: "topic_web ''https://a.example/'' = Inr article_page" by code_simp
  have e: "list_ex (named [''main'', ''article'', ''body''])
        (descendants (decompose_all denylist article_page))"
    by code_simp
  have r: "map_option
             (\<lambda>m. \<lparr> page_title = extract_title article_page, page_url = ''https://a.example/'',
                     content = sample_handle m, plain_text = get_text ''\<newline>'' m \<rparr>)
             (case find_first (named [''main'']) (decompose_all denylist article_page) of
                Some m \<Rightarrow> Some m
              | None \<Rightarrow>
                  (case find_first (named [''article'']) (decompose_all denylist article_page) of
                     Some a \<Rightarrow> Some a
                   | None \<Rightarrow> find_first (named [''body'']) (decompose_all denylist article_page)))
           = Some \<lparr> page_title = ''Ownership'', page_url = ''https://a.example/'',
              content = ''Ownership\<newline> Each value has an owner. '',
              plain_text = ''Ownership\<newline>Each value has an owner.'' \<rparr>"
    by code_simp
  from region_selection [where web = topic_web and u = "''https://a.example/''"
      and soup = article_page and handle = sample_handle, OF w] r
  have a: "fetch_content topic_web sample_handle ''https://a.example/''
     = Some \<lparr> page_title = ''Ownership'', page_url = ''https://a.example/'',
              content = ''Ownership\<newline> Each value has an owner. '',
              plain_text = ''Ownership\<newline>Each value has an owner.'' \<rparr>"
    by simp
  have w': "blank_web ''https://n.example/'' = Inr blank_page" by code_simp
  have e': "\<not> list_ex (named [''main'', ''article'', ''body''])
        (descendants (decompose_all denylist blank_page))"
    by code_simp
  from region_selection [where web = blank_web and u = "''https://n.example/''"
      and soup = blank_page and handle = sample_handle, OF w', THEN conjunct2] e'
  have b: "fetch_content blank_web sample_handle ''https://n.example/'' = None"
    by simp
  show ?thesis using a e b by simp
qed

text \<open>
  C8 as stated fails for a body without extractable text: the body is still selected and
  a page with empty plain text is returned.
\<close>

theorem region_selection_counterexample:
  "find_first (named [''body'']) (decompose_all denylist empty_body_page) = Some (Element ''body'' [] [] [])
   \<and> get_text ''\<newline>'' (Element ''body'' [] [] []) = []
   \<and> fetch_content empty_body_web sample_handle ''https://e.example/''
       = Some \<lparr> page_title = [], page_url = ''https://e.example/'', content = [], plain_text = [] \<rparr>"
  by code_simp

subsection \<open>JSON output\<close>

lemma hexval_lowhex: "n < 16 \<Longrightarrow> hexval (lowhex n) = Some n"
  by (auto simp: hexval_def lowhex_def Let_def)

lemma hexval_zero: "hexval CHR ''0'' = Some 0"
  by (simp add: hexval_def)

lemma scan_control:
  assumes "(of_char c :: nat) < 32"
  shows "scan_string (CHR 0x5C # CHR ''u'' # CHR ''0'' # CHR ''0''
            # lowhex (of_char c div 16) # lowhex (of_char c mod 16) # s)
         = prepend c (scan_string s)"
proof -
  have hi: "(of_char c :: nat) div 16 < 16" using assms by linarith
  have lo: "(of_char c :: nat) mod 16 < 16" by simp
  have n: "16 * ((of_char c :: nat) div 16) + of_char c mod 16 = of_char c" by simp
  have h: "hex4 CHR ''0'' CHR ''0'' (lowhex (of_char c div 16)) (lowhex (of_char c mod 16))
           = Some (of_char c)"
    by (simp add: hex4_def hexval_zero hexval_lowhex[OF hi] hexval_lowhex[OF lo] n)
  have e: "utf8_encode (of_char c) = [c]" using assms by (simp add: utf8_encode_def)
  have "prepend_all [c] r = prepend c r" for r
    by (cases r) (auto simp: prepend_all_def prepend_def)
  then show ?thesis using assms by (simp add: h e)
qed

lemma scan_escape_char: "scan_string (escape_char c @ s) = prepend c (scan_string s)"
proof -
  consider "c = CHR 0x22" | "c = CHR 0x5C" | "c = CHR 0x0A" | "c = CHR 0x0D" | "c = CHR 0x09"
    | "c = CHR 0x08" | "c = CHR 0x0C"
    | "c \<notin> set [CHR 0x22, CHR 0x5C, CHR 0x0A, CHR 0x0D, CHR 0x09, CHR 0x08, CHR 0x0C]"
      "(of_char c :: nat) < 32"
    | "c \<notin> set [CHR 0x22, CHR 0x5C, CHR 0x0A, CHR 0x0D, CHR 0x09, CHR 0x08, CHR 0x0C]"
      "\<not> (of_char c :: nat) < 32"
    by auto
  then show ?thesis
  proof cases
    case 8
    then show ?thesis using scan_control[of c s] by (simp add: escape_char_def)
  next
    case 9
    then show ?thesis by (simp add: escape_char_def)
  qed (simp_all add: escape_char_def unescape_def)
qed

lemma scan_encoded:
  "scan_string (concat (map escape_char s) @ CHR 0x22 # rest) = Some (s, rest)"
  by (induction s) (simp_all add: scan_escape_char prepend_def)

lemma skip_ws_spaces: "list_all json_space ws \<Longrightarrow> skip_ws (ws @ s) = skip_ws s"
  by (induction ws) (simp_all add: skip_ws_def)

lemma skip_ws_head: "\<not> json_space c \<Longrightarrow> skip_ws (c # s) = c # s"
  by (simp add: skip_ws_def)

lemma newline_indent_spaces: "list_all json_space (newline_indent k)"
  by (simp add: newline_indent_def json_space_def list_all_iff)

lemma parse_value_spaces: "list_all json_space ws \<Longrightarrow> parse_value n (ws @ s) = parse_value n s"
  by (cases n) (simp_all add: skip_ws_spaces)

lemma parse_members_spaces: "list_all json_space ws \<Longrightarrow> parse_members n (ws @ s) = parse_members n s"
  by (cases n) (simp_all add: skip_ws_spaces)

lemma parse_items_spaces: "list_all json_space ws \<Longrightarrow> parse_items n (ws @ s) = parse_items n s"
  by (cases n) (simp_all add: parse_value_spaces)

lemma dumps_head:
  "\<exists>c r. dumps lv v = c # r \<and> c \<in> set [CHR 0x22, CHR ''['', CHR ''{'']"
  by (cases v) (auto simp: encode_string_def)


lemma items_head:
  assumes "xs \<noteq> []"
  shows "\<exists>c r. join sep (map (dumps L) xs) = c # r \<and> \<not> json_space c \<and> c \<noteq> CHR '']''"
proof -
  from assms obtain x xs' where xs: "xs = x # xs'" by (cases xs) auto
  from dumps_head[of L x] obtain c r where d: "dumps L x = c # r"
      and c: "c \<in> set [CHR 0x22, CHR ''['', CHR ''{'']" by blast
  have "join sep (map (dumps L) xs) = c # (r @ (if xs' = [] then [] else sep @ join sep (map (dumps L) xs')))"
    using xs d by (cases xs') auto
  moreover have "\<not> json_space c \<and> c \<noteq> CHR '']''" using c by (auto simp: json_space_def)
  ultimately show ?thesis by blast
qed

lemma members_head:
  assumes "kvs \<noteq> []"
  shows "\<exists>r. join sep (map (\<lambda>(k, v). encode_string k @ '': '' @ dumps L v) kvs) = CHR 0x22 # r"
proof -
  from assms obtain k v kvs' where kvs: "kvs = (k, v) # kvs'" by (cases kvs) auto
  show ?thesis using kvs by (cases kvs') (auto simp: encode_string_def)
qed

lemma parse_items_dumps:
  assumes "\<And>x n rest. x \<in> set xs \<Longrightarrow> fuel x \<le> n \<Longrightarrow> parse_value n (dumps L x @ rest) = Some (x, rest)"
    and "xs \<noteq> []" and "sum_list (map (\<lambda>x. Suc (fuel x)) xs) \<le> m"
  shows "parse_items m (join ('','' @ newline_indent L) (map (dumps L) xs)
            @ newline_indent lv @ CHR '']'' # rest) = Some (xs, rest)"
  using assms
proof (induction xs arbitrary: m)
  case Nil
  then show ?case by simp
next
  case (Cons x xs')
  let ?sep = "'','' @ newline_indent L"
  let ?tail = "newline_indent lv @ CHR '']'' # rest"
  from Cons.prems(3) obtain m' where m: "m = Suc m'" and fx: "fuel x \<le> m'"
      and fxs: "sum_list (map (\<lambda>x. Suc (fuel x)) xs') \<le> m'"
    by (cases m) auto
  have pv: "parse_value m' (dumps L x @ t) = Some (x, t)" for t
    using Cons.prems(1)[of x m' t] fx by simp
  show ?case
  proof (cases "xs' = []")
    case True
    have sk: "skip_ws ?tail = CHR '']'' # rest"
      by (simp add: skip_ws_spaces[OF newline_indent_spaces] skip_ws_head json_space_def)
    show ?thesis using True pv[of ?tail] sk by (simp add: m)
  next
    case False
    let ?rest' = "join ?sep (map (dumps L) xs') @ ?tail"
    have j: "join ?sep (map (dumps L) (x # xs')) @ ?tail
             = dumps L x @ (CHR '','' # newline_indent L @ ?rest')"
      using False by (cases xs') auto
    have sk: "skip_ws (CHR '','' # newline_indent L @ ?rest') = CHR '','' # newline_indent L @ ?rest'"
      by (rule skip_ws_head) (simp add: json_space_def)
    have ih: "parse_items m' ?rest' = Some (xs', rest)"
    proof (rule Cons.IH)
      show "xs' \<noteq> []" by fact
      show "sum_list (map (\<lambda>x. Suc (fuel x)) xs') \<le> m'" by fact
      fix y n t assume "y \<in> set xs'" "fuel y \<le> n"
      then show "parse_value n (dumps L y @ t) = Some (y, t)"
        using Cons.prems(1)[of y n t] by simp
    qed
    then have "parse_items m' (newline_indent L @ ?rest') = Some (xs', rest)"
      by (simp add: parse_items_spaces[OF newline_indent_spaces])
    then show ?thesis
      unfolding j m using pv[of "CHR '','' # newline_indent L @ ?rest'"] sk by simp
  qed
qed

lemma parse_members_dumps:
  assumes "\<And>k v n rest. (k, v) \<in> set kvs \<Longrightarrow> fuel v \<le> n \<Longrightarrow> parse_value n (dumps L v @ rest) = Some (v, rest)"
    and "kvs \<noteq> []" and "sum_list (map (\<lambda>kv. Suc (fuel (snd kv))) kvs) \<le> m"
  shows "parse_members m (join ('','' @ newline_indent L)
              (map (\<lambda>(k, v). encode_string k @ '': '' @ dumps L v) kvs)
            @ newline_indent lv @ CHR ''}'' # rest) = Some (kvs, rest)"
  using assms
proof (induction kvs arbitrary: m)
  case Nil
  then show ?case by simp
next
  case (Cons kv kvs')
  obtain k v where kv: "kv = (k, v)" by (cases kv)
  let ?sep = "'','' @ newline_indent L"
  let ?tail = "newline_indent lv @ CHR ''}'' # rest"
  let ?mem = "\<lambda>(k, v). encode_string k @ '': '' @ dumps L v"
  from Cons.prems(3) kv obtain m' where m: "m = Suc m'" and fx: "fuel v \<le> m'"
      and fxs: "sum_list (map (\<lambda>kv. Suc (fuel (snd kv))) kvs') \<le> m'"
    by (cases m) auto
  have pv: "parse_value m' (CHR '' '' # dumps L v @ t) = Some (v, t)" for t
  proof -
    have "parse_value m' ([CHR '' ''] @ dumps L v @ t) = parse_value m' (dumps L v @ t)"
      by (rule parse_value_spaces) (simp add: json_space_def)
    then show ?thesis using Cons.prems(1)[of k v m' t] fx kv by simp
  qed
  have key: "skip_ws (encode_string k @ '': '' @ dumps L v @ t)
             = CHR 0x22 # concat (map escape_char k) @ CHR 0x22 # CHR '':'' # CHR '' '' # dumps L v @ t" for t
    by (simp add: encode_string_def skip_ws_head json_space_def)
  have colon: "skip_ws (CHR '':'' # u) = CHR '':'' # u" for u
    by (rule skip_ws_head) (simp add: json_space_def)
  show ?case
  proof (cases "kvs' = []")
    case True
    have sk: "skip_ws ?tail = CHR ''}'' # rest"
      by (simp add: skip_ws_spaces[OF newline_indent_spaces] skip_ws_head json_space_def)
    have j: "join ?sep (map ?mem (kv # kvs')) @ ?tail = encode_string k @ '': '' @ dumps L v @ ?tail"
      using True kv by simp
    show ?thesis
      unfolding j m using key[of ?tail] scan_encoded colon pv[of ?tail] sk kv True by simp
  next
    case False
    let ?rest' = "join ?sep (map ?mem kvs') @ ?tail"
    have j: "join ?sep (map ?mem (kv # kvs')) @ ?tail
             = encode_string k @ '': '' @ dumps L v @ (CHR '','' # newline_indent L @ ?rest')"
      using False kv by (cases kvs') auto
    have sk: "skip_ws (CHR '','' # newline_indent L @ ?rest') = CHR '','' # newline_indent L @ ?rest'"
      by (rule skip_ws_head) (simp add: json_space_def)
    have ih: "parse_members m' ?rest' = Some (kvs', rest)"
    proof (rule Cons.IH)
      show "kvs' \<noteq> []" by fact
      show "sum_list (map (\<lambda>kv. Suc (fuel (snd kv))) kvs') \<le> m'" by fact
      fix k' v' n t assume "(k', v') \<in> set kvs'" "fuel v' \<le> n"
      then show "parse_value n (dumps L v' @ t) = Some (v', t)"
        using Cons.prems(1)[of k' v' n t] by simp
    qed
    then have ih': "parse_members m' (newline_indent L @ ?rest') = Some (kvs', rest)"
      by (simp add: parse_members_spaces[OF newline_indent_spaces])
    show ?thesis
      unfolding j m
      using key[of "CHR '','' # newline_indent L @ ?rest'"] scan_encoded colon
        pv[of "CHR '','' # newline_indent L @ ?rest'"] sk ih' kv False
      by simp
  qed
qed


lemma dict_set_fresh: "k \<notin> fst ` set d \<Longrightarrow> dict_set d k v = d @ [(k, v)]"
  by (induction d) auto

lemma foldl_dict_set:
  "distinct (map fst (d @ kvs)) \<Longrightarrow> foldl (\<lambda>d (k, v). dict_set d k v) d kvs = d @ kvs"
proof (induction kvs arbitrary: d)
  case Nil
  then show ?case by simp
next
  case (Cons kv kvs)
  obtain k v where kv: "kv = (k, v)" by (cases kv)
  from Cons.prems kv have fresh: "k \<notin> fst ` set d" by auto
  from Cons.prems kv have "distinct (map fst ((d @ [(k, v)]) @ kvs))" by simp
  from Cons.IH[OF this] show ?case using kv fresh by (simp add: dict_set_fresh)
qed

lemma dict_of_distinct: "distinct (map fst kvs) \<Longrightarrow> dict_of kvs = kvs"
  using foldl_dict_set[of "[]" kvs] by (simp add: dict_of_def)

lemma parse_value_dumps:
  "distinct_keys v \<Longrightarrow> fuel v \<le> n \<Longrightarrow> parse_value n (dumps lv v @ rest) = Some (v, rest)"
proof (induction v arbitrary: n lv rest)
  case (JString s)
  then obtain m where n: "n = Suc m" by (cases n) auto
  show ?case
    by (simp add: n encode_string_def skip_ws_head json_space_def scan_encoded)
next
  case (JArray xs)
  from JArray.prems obtain m where n: "n = Suc m"
      and f: "sum_list (map (\<lambda>x. Suc (fuel x)) xs) \<le> m"
    by (cases n) auto
  show ?case
  proof (cases "xs = []")
    case True
    then show ?thesis by (simp add: n skip_ws_head json_space_def)
  next
    case False
    let ?J = "join ('','' @ newline_indent (Suc lv)) (map (dumps (Suc lv)) xs)"
    let ?tail = "newline_indent lv @ CHR '']'' # rest"
    from items_head[OF False, of "'','' @ newline_indent (Suc lv)" "Suc lv"]
    obtain c r where J: "?J = c # r" and c: "\<not> json_space c" "c \<noteq> CHR '']''" by blast
    have sk: "skip_ws (newline_indent (Suc lv) @ ?J @ ?tail) = c # r @ ?tail"
      using J c by (simp add: skip_ws_spaces[OF newline_indent_spaces] skip_ws_head)
    have items: "parse_items m (?J @ ?tail) = Some (xs, rest)"
    proof (rule parse_items_dumps)
      show "xs \<noteq> []" by fact
      show "sum_list (map (\<lambda>x. Suc (fuel x)) xs) \<le> m" by fact
      fix x k t assume x: "x \<in> set xs" and k: "fuel x \<le> k"
      from JArray.prems(1) x have "distinct_keys x" by (simp add: list_all_iff)
      from JArray.IH[OF x this k] show "parse_value k (dumps (Suc lv) x @ t) = Some (x, t)" .
    qed
    then have items': "parse_items m (newline_indent (Suc lv) @ ?J @ ?tail) = Some (xs, rest)"
      by (simp add: parse_items_spaces[OF newline_indent_spaces])
    have d: "dumps lv (JArray xs) @ rest = CHR ''['' # newline_indent (Suc lv) @ ?J @ ?tail"
      using False by simp
    have b: "skip_ws (CHR ''['' # u) = CHR ''['' # u" for u
      by (rule skip_ws_head) (simp add: json_space_def)
    show ?thesis
      unfolding d n using b sk items' c by simp
  qed
next
  case (JObject kvs)
  from JObject.prems obtain m where n: "n = Suc m"
      and f: "sum_list (map (\<lambda>kv. Suc (fuel (snd kv))) kvs) \<le> m"
    by (cases n) auto
  from JObject.prems(1) have dist: "distinct (map fst kvs)" by simp
  show ?case
  proof (cases "kvs = []")
    case True
    then show ?thesis by (simp add: n skip_ws_head json_space_def)
  next
    case False
    let ?mem = "\<lambda>(k, v). encode_string k @ '': '' @ dumps (Suc lv) v"
    let ?J = "join ('','' @ newline_indent (Suc lv)) (map ?mem kvs)"
    let ?tail = "newline_indent lv @ CHR ''}'' # rest"
    from members_head[OF False, of "'','' @ newline_indent (Suc lv)" "Suc lv"]
    obtain r where J: "?J = CHR 0x22 # r" by blast
    have sk: "skip_ws (newline_indent (Suc lv) @ ?J @ ?tail) = CHR 0x22 # r @ ?tail"
      using J by (simp add: skip_ws_spaces[OF newline_indent_spaces] skip_ws_head json_space_def)
    have members: "parse_members m (?J @ ?tail) = Some (kvs, rest)"
    proof (rule parse_members_dumps)
      show "kvs \<noteq> []" by fact
      show "sum_list (map (\<lambda>kv. Suc (fuel (snd kv))) kvs) \<le> m" by fact
      fix k v i t assume kv: "(k, v) \<in> set kvs" and i: "fuel v \<le> i"
      from JObject.prems(1) kv have dk: "distinct_keys v" by (auto simp: list_all_iff)
      have "v \<in> Basic_BNFs.snds (k, v)" by simp
      from JObject.IH[OF kv this dk i] show "parse_value i (dumps (Suc lv) v @ t) = Some (v, t)" .
    qed
    then have members': "parse_members m (newline_indent (Suc lv) @ ?J @ ?tail) = Some (kvs, rest)"
      by (simp add: parse_members_spaces[OF newline_indent_spaces])
    have d: "dumps lv (JObject kvs) @ rest = CHR ''{'' # newline_indent (Suc lv) @ ?J @ ?tail"
      using False by simp
    have b: "skip_ws (CHR ''{'' # u) = CHR ''{'' # u" for u
      by (rule skip_ws_head) (simp add: json_space_def)
    show ?thesis
      unfolding d n using b sk members' by (simp add: dict_of_distinct[OF dist])
  qed
qed


lemma fuel_join:
  assumes "\<And>x. x \<in> set xs \<Longrightarrow> g x \<le> length (f x)" and "2 \<le> length sep" and "xs \<noteq> []"
  shows "sum_list (map (\<lambda>x. Suc (g x)) xs) \<le> Suc (length (join sep (map f xs)))"
  using assms
proof (induction xs)
  case Nil
  then show ?case by simp
next
  case (Cons x xs)
  have gx: "g x \<le> length (f x)" using Cons.prems(1) by simp
  show ?case
  proof (cases "xs = []")
    case True
    then show ?thesis using gx by simp
  next
    case False
    have "sum_list (map (\<lambda>x. Suc (g x)) xs) \<le> Suc (length (join sep (map f xs)))"
      by (rule Cons.IH) (use Cons.prems False in auto)
    moreover have "join sep (map f (x # xs)) = f x @ sep @ join sep (map f xs)"
      using False by (cases xs) auto
    ultimately show ?thesis using gx Cons.prems(2) by simp
  qed
qed

lemma fuel_length: "fuel v \<le> length (dumps lv v)"
proof (induction v arbitrary: lv)
  case (JString s)
  then show ?case by (simp add: encode_string_def)
next
  case (JArray xs)
  show ?case
  proof (cases "xs = []")
    case True
    then show ?thesis by simp
  next
    case False
    have "sum_list (map (\<lambda>x. Suc (fuel x)) xs)
          \<le> Suc (length (join ('','' @ newline_indent (Suc lv)) (map (dumps (Suc lv)) xs)))"
      by (rule fuel_join) (use JArray.IH False in \<open>auto simp: newline_indent_def\<close>)
    then show ?thesis using False by (simp add: newline_indent_def)
  qed
next
  case (JObject kvs)
  show ?case
  proof (cases "kvs = []")
    case True
    then show ?thesis by simp
  next
    case False
    let ?mem = "\<lambda>(k, v). encode_string k @ '': '' @ dumps (Suc lv) v"
    have "sum_list (map (\<lambda>kv. Suc (fuel (snd kv))) kvs)
          \<le> Suc (length (join ('','' @ newline_indent (Suc lv)) (map ?mem kvs)))"
    proof (rule fuel_join)
      fix kv assume kv: "kv \<in> set kvs"
      obtain k v where e: "kv = (k, v)" by (cases kv)
      have "v \<in> Basic_BNFs.snds kv" using e by simp
      from JObject.IH[OF kv this, of "Suc lv"] e
      show "fuel (snd kv) \<le> length (?mem kv)" by simp
    qed (use False in \<open>auto simp: newline_indent_def\<close>)
    then show ?thesis using False by (simp add: newline_indent_def)
  qed
qed

lemma loads_dumps: "distinct_keys v \<Longrightarrow> loads (dumps lv v) = Some v"
  using parse_value_dumps[of v "length (dumps lv v)" lv "[]"] fuel_length[of v lv]
  by (simp add: loads_def skip_ws_def)

lemma json_page_inverse: "json_page (page_json p) = Some p"
  by (simp add: json_page_def page_json_def get_string_def)

lemma json_result_inverse: "json_result (result_json r) = Some r"
  by (cases "extracted r")
     (simp_all add: json_result_def result_json_def get_string_def json_page_inverse)

lemma those_results_inverse: "those_results (map result_json rs) = Some rs"
  by (induction rs) (simp_all add: json_result_inverse)

lemma json_document_inverse: "json_document (to_json d) = Some d"
  by (cases d)
     (simp_all add: json_document_def those_results_inverse page_json_def json_page_def get_string_def)

lemma distinct_keys_page: "distinct_keys (page_json p)"
  by (simp add: page_json_def)

lemma distinct_keys_result: "distinct_keys (result_json r)"
  by (cases "extracted r") (simp_all add: result_json_def distinct_keys_page)

lemma distinct_keys_document: "distinct_keys (to_json d)"
  by (cases d) (simp_all add: distinct_keys_page distinct_keys_result list_all_iff)

text \<open>
  C7. Reading the output of \<open>format_json\<close> back gives the dictionary that was written,
  and that dictionary determines the document: every field of it (query, title, url,
  snippet, markdown body, plain text, and whether extracted content is present) is
  reproduced exactly.
\<close>

theorem json_round_trip:
  "loads (format_json d) = Some (to_json d) \<and> json_document (to_json d) = Some d"
  by (simp add: format_json_def loads_dumps distinct_keys_document json_document_inverse)

theorem json_round_trip_witness:
  "Option.bind (loads (format_json (Topic ''rust'' [body_result [CHR 0x22, CHR ''a'', CHR 0x5C, CHR 0x0A, CHR 0x01]])))
     json_document
   = Some (Topic ''rust'' [body_result [CHR 0x22, CHR ''a'', CHR 0x5C, CHR 0x0A, CHR 0x01]])"
  using json_round_trip [of "Topic ''rust'' [body_result [CHR 0x22, CHR ''a'', CHR 0x5C, CHR 0x0A, CHR 0x01]]"]
  by simp


end
